theory Spec2Isabelle
  imports Complex_Main "HOL-Library.Sublist" "HOL-Library.Multiset"
begin

section \<open>Values of the runtime\<close>

text \<open>
  Messages, tool arguments and parameter schemas are plain JavaScript objects that came out of
  \<^verbatim>\<open>JSON.parse\<close> or are written as object literals. They are modelled as JSON trees; an
  object is the list of its own properties in insertion order.
  Strings are byte strings (UTF-8); the code in scope only compares and concatenates them.
\<close>

datatype json =
  JNull
  | JBool bool
  | JNum real
  | JStr string
  | JArr "json list"
  | JObj "(string \<times> json) list"

text \<open>A thrown value, as \<^verbatim>\<open>String(err)\<close> renders it.\<close>

type_synonym exn = string

text \<open>\<^verbatim>\<open>obj[k]\<close> on a plain object: \<open>None\<close> is \<^verbatim>\<open>undefined\<close>.\<close>

definition field :: "string \<Rightarrow> json \<Rightarrow> json option" where
  "field k j = (case j of JObj kvs \<Rightarrow> map_of kvs k | _ \<Rightarrow> None)"

text \<open>Truthiness of a value read from an object (\<open>None\<close> is \<^verbatim>\<open>undefined\<close>).\<close>

fun truthy :: "json option \<Rightarrow> bool" where
  "truthy None = False"
| "truthy (Some JNull) = False"
| "truthy (Some (JBool b)) = b"
| "truthy (Some (JNum n)) = (n \<noteq> 0)"
| "truthy (Some (JStr s)) = (s \<noteq> [])"
| "truthy (Some (JArr _)) = True"
| "truthy (Some (JObj _)) = True"

section \<open>Tool registry and dispatcher (tools/index.ts)\<close>

text \<open>
  \<^verbatim>\<open>ChatCompletionTool\<close>: \<^verbatim>\<open>{type: "function", function: {name, description?, parameters?}}\<close>.
\<close>

record ChatCompletionTool =
  function_name :: string
  function_description :: "string option"
  function_parameters :: "(string \<times> json) list option"

text \<open>
  \<^verbatim>\<open>ToolDefinition\<close>. A tool acts on the world \<open>'w\<close> (files, network, database) and either
  returns its text or throws.
\<close>

record 'w ToolDefinition =
  spec :: ChatCompletionTool
  execute :: "json \<Rightarrow> 'w \<Rightarrow> (exn + string) \<times> 'w"

definition getOpenAITools :: "'w ToolDefinition list \<Rightarrow> ChatCompletionTool list" where
  "getOpenAITools tools = map spec tools"

text \<open>
  \<^verbatim>\<open>dispatchTool(name, rawArgs)\<close>. \<^verbatim>\<open>JSON.parse\<close> belongs to the runtime and is a parameter:
  \<open>None\<close> is the thrown \<^verbatim>\<open>SyntaxError\<close>. The result is \<open>Inl\<close> where the promise would
  reject and \<open>Inr\<close> where it resolves; the two \<^verbatim>\<open>try\<close> blocks are the two inner case
  distinctions.
\<close>

definition dispatchTool ::
  "(string \<Rightarrow> json option) \<Rightarrow> 'w ToolDefinition list \<Rightarrow> string \<Rightarrow> string \<Rightarrow> 'w
    \<Rightarrow> (exn + string) \<times> 'w" where
  "dispatchTool JSON_parse tools name rawArgs w =
     (case find (\<lambda>t. function_name (spec t) = name) tools of
        None \<Rightarrow> (Inr (''Error: unknown tool \"'' @ name @ ''\"''), w)
      | Some tool \<Rightarrow>
          (case JSON_parse rawArgs of
             None \<Rightarrow> (Inr (''Error: could not parse arguments as JSON: '' @ rawArgs), w)
           | Some args \<Rightarrow>
               (case execute tool args w of
                  (Inr out, w') \<Rightarrow> (Inr out, w')
                | (Inl err, w') \<Rightarrow>
                    (Inr (''Error executing \"'' @ name @ ''\": '' @ err), w'))))"

text \<open>
  The demonstration tool of tools/echo.ts. \<^verbatim>\<open>String(v)\<close> is the identity on strings; on other
  values it is the runtime's conversion, a parameter. Reading a property of \<^verbatim>\<open>null\<close> throws.
\<close>

definition echoTool :: "(json \<Rightarrow> string) \<Rightarrow> 'w ToolDefinition" where
  "echoTool String =
     \<lparr> spec = \<lparr> function_name = ''echo'',
                function_description = Some (''Echoes back whatever text you give it. '' @
                  ''Use this to test that the tool-calling loop is working.''),
                function_parameters = Some
                  [(''type'', JStr ''object''),
                   (''properties'', JObj [(''text'', JObj [(''type'', JStr ''string''),
                      (''description'', JStr ''The text to echo back.'')])]),
                   (''required'', JArr [JStr ''text'']),
                   (''additionalProperties'', JBool False)] \<rparr>,
       execute = (\<lambda>args w.
         (case args of
            JNull \<Rightarrow> (Inl ''TypeError: Cannot read properties of null (reading 'text')'', w)
          | _ \<Rightarrow>
             (Inr (''Echo: '' @
                (case field ''text'' args of
                   None \<Rightarrow> []
                 | Some JNull \<Rightarrow> []
                 | Some (JStr s) \<Rightarrow> s
                 | Some v \<Rightarrow> String v)), w))) \<rparr>"

section \<open>Provider adapters (providers/)\<close>

text \<open>\<^verbatim>\<open>ToolCall\<close> of providers/types.ts: \<^verbatim>\<open>{id, name, arguments}\<close>.\<close>

record ToolCall =
  call_id :: string
  call_name :: string
  call_arguments :: string

text \<open>
  \<^verbatim>\<open>LLMResponse\<close>; \<open>None\<close> is \<^verbatim>\<open>null\<close>. The assistant message is an object in OpenAI format.
\<close>

record LLMResponse =
  content :: "string option"
  toolCalls :: "ToolCall list option"
  assistantMessage :: json

text \<open>
  \<^verbatim>\<open>LLMProvider\<close>. \<^verbatim>\<open>complete\<close> awaits the backend: it changes the world and either rejects
  (\<open>Inl\<close>) or resolves with a response.
\<close>

record 'w LLMProvider =
  provider_id :: string
  provider_name :: string
  defaultModel :: string
  complete :: "json list \<Rightarrow> ChatCompletionTool list \<Rightarrow> 'w \<Rightarrow> (exn + LLMResponse) \<times> 'w"

text \<open>A tool call in OpenAI wire format, as an object.\<close>

definition openai_tool_call :: "string \<Rightarrow> string \<Rightarrow> string \<Rightarrow> json" where
  "openai_tool_call i n a =
     JObj [(''id'', JStr i), (''type'', JStr ''function''),
           (''function'', JObj [(''name'', JStr n), (''arguments'', JStr a)])]"

subsection \<open>OpenAI-compatible backends (providers/openai-provider.ts)\<close>

text \<open>
  The SDK's \<^verbatim>\<open>ChatCompletionMessage\<close>: \<^verbatim>\<open>content: string | null\<close>, \<^verbatim>\<open>tool_calls?\<close> with
  \<^verbatim>\<open>{id, function: {name, arguments}}\<close> entries, and the remaining properties
  (\<^verbatim>\<open>refusal\<close>, \<^verbatim>\<open>annotations\<close>, ...) carried along untouched.
\<close>

record ChatCompletionMessageToolCall =
  tc_id :: string
  tc_function_name :: string
  tc_function_arguments :: string

record ChatCompletionMessage =
  message_role :: string
  message_content :: "string option"
  message_tool_calls :: "ChatCompletionMessageToolCall list option"
  message_rest :: "(string \<times> json) list"

text \<open>\<^verbatim>\<open>msg as ChatCompletionMessageParam\<close>: the same object, seen as a history entry.\<close>

definition as_ChatCompletionMessageParam :: "ChatCompletionMessage \<Rightarrow> json" where
  "as_ChatCompletionMessageParam msg =
     JObj ([(''role'', JStr (message_role msg)),
            (''content'', (case message_content msg of None \<Rightarrow> JNull | Some c \<Rightarrow> JStr c))]
           @ (case message_tool_calls msg of
                None \<Rightarrow> []
              | Some tcs \<Rightarrow>
                  [(''tool_calls'', JArr (map (\<lambda>tc. openai_tool_call (tc_id tc)
                      (tc_function_name tc) (tc_function_arguments tc)) tcs))])
           @ message_rest msg)"

text \<open>
  The request handed to \<^verbatim>\<open>client.chat.completions.create\<close>; \<^verbatim>\<open>tools\<close> and
  \<^verbatim>\<open>tool_choice: "auto"\<close> are present only for a non-empty tool list. The client answers with
  the list of the choices' messages or throws.
\<close>

record ChatCompletionCreateParams =
  params_model :: string
  params_messages :: "json list"
  params_tools :: "ChatCompletionTool list option"

definition makeOpenAICompatible ::
  "string \<Rightarrow> string \<Rightarrow> string
    \<Rightarrow> (ChatCompletionCreateParams \<Rightarrow> 'w \<Rightarrow> (exn + ChatCompletionMessage list) \<times> 'w)
    \<Rightarrow> 'w LLMProvider" where
  "makeOpenAICompatible ident name model client =
     \<lparr> provider_id = ident, provider_name = name, defaultModel = model,
       complete = (\<lambda>messages tools w.
         (case client \<lparr> params_model = model, params_messages = messages,
                        params_tools = (if length tools > 0 then Some tools else None) \<rparr> w of
            (Inl err, w') \<Rightarrow> (Inl err, w')
          | (Inr choices, w') \<Rightarrow>
              (case choices of
                 [] \<Rightarrow> (Inl (''Error: '' @ name @ '' returned no choices''), w')
               | msg # _ \<Rightarrow>
                   (if (case message_tool_calls msg of
                          Some tcs \<Rightarrow> length tcs > 0 | None \<Rightarrow> False)
                    then (Inr \<lparr> content = None,
                                toolCalls = Some (map (\<lambda>tc.
                                  \<lparr> call_id = tc_id tc, call_name = tc_function_name tc,
                                    call_arguments = tc_function_arguments tc \<rparr>)
                                  (case message_tool_calls msg of Some tcs \<Rightarrow> tcs | None \<Rightarrow> [])),
                                assistantMessage = as_ChatCompletionMessageParam msg \<rparr>, w')
                    else (Inr \<lparr> content = Some (case message_content msg of
                                            Some c \<Rightarrow> c | None \<Rightarrow> ''(no response)''),
                                toolCalls = None,
                                assistantMessage = as_ChatCompletionMessageParam msg \<rparr>, w'))))) \<rparr>"

subsection \<open>Anthropic (providers/anthropic-provider.ts)\<close>

text \<open>
  \<^verbatim>\<open>toAnthropicMessages\<close> turns the canonical messages into the backend's system text and
  message list, and throws where the stored arguments of a tool call do not parse. No
  property below depends on its result, so it is a parameter whose result \<open>'m\<close> is handed
  to the client as it is.
\<close>

record AnthropicTool =
  tool_name :: string
  tool_description :: string
  input_schema :: "(string \<times> json) list option"

definition toAnthropicTools :: "ChatCompletionTool list \<Rightarrow> AnthropicTool list" where
  "toAnthropicTools tools =
     map (\<lambda>t. \<lparr> tool_name = function_name t,
                 tool_description = (case function_description t of Some d \<Rightarrow> d | None \<Rightarrow> []),
                 input_schema = function_parameters t \<rparr>) tools"

record 'm MessageCreateParams =
  create_model :: string
  create_max_tokens :: nat
  create_messages :: 'm
  create_tools :: "AnthropicTool list option"

text \<open>A content block of the backend's answer.\<close>

datatype ContentBlock =
  TextBlock string
  | ToolUseBlock string string json
  | OtherBlock string

text \<open>\<^verbatim>\<open>content.filter(b => b.type === "tool_use")\<close>: the blocks' \<^verbatim>\<open>(id, name, input)\<close>.\<close>

fun as_tool_use :: "ContentBlock \<Rightarrow> (string \<times> string \<times> json) option" where
  "as_tool_use (ToolUseBlock i n input) = Some (i, n, input)"
| "as_tool_use _ = None"

fun block_text :: "ContentBlock \<Rightarrow> string" where
  "block_text (TextBlock t) = t"
| "block_text _ = []"

text \<open>\<^verbatim>\<open>content.filter(b => b.type === "text").map(b => b.text).join("")\<close>\<close>

definition joined_text :: "ContentBlock list \<Rightarrow> string" where
  "joined_text blocks = concat (map block_text blocks)"

definition createAnthropicProvider ::
  "(json \<Rightarrow> string) \<Rightarrow> (json list \<Rightarrow> exn + 'm) \<Rightarrow> string
    \<Rightarrow> ('m MessageCreateParams \<Rightarrow> 'w \<Rightarrow> (exn + ContentBlock list) \<times> 'w)
    \<Rightarrow> 'w LLMProvider" where
  "createAnthropicProvider JSON_stringify toAnthropicMessages model client =
     \<lparr> provider_id = ''anthropic'', provider_name = ''Anthropic'', defaultModel = model,
       complete = (\<lambda>messages tools w.
         (case toAnthropicMessages messages of
            Inl err \<Rightarrow> (Inl err, w)
          | Inr msgs \<Rightarrow>
         (case client \<lparr> create_model = model, create_max_tokens = 4096,
                        create_messages = msgs,
                        create_tools = (if length (toAnthropicTools tools) > 0
                                        then Some (toAnthropicTools tools) else None) \<rparr> w of
            (Inl err, w') \<Rightarrow> (Inl err, w')
          | (Inr response_content, w') \<Rightarrow>
              (let toolUseBlocks = List.map_filter as_tool_use response_content in
               if length toolUseBlocks > 0 then
                 (let textContent = joined_text response_content;
                      calls = map (\<lambda>(i, n, input).
                        \<lparr> call_id = i, call_name = n, call_arguments = JSON_stringify input \<rparr>)
                        toolUseBlocks
                  in (Inr \<lparr> content = None,
                             toolCalls = Some calls,
                             assistantMessage =
                               JObj [(''role'', JStr ''assistant''),
                                     (''content'', (if textContent = [] then JNull
                                                    else JStr textContent)),
                                     (''tool_calls'', JArr (map (\<lambda>c. openai_tool_call (call_id c)
                                        (call_name c) (call_arguments c)) calls))] \<rparr>, w'))
               else
                 (let text = joined_text response_content;
                      shown = (if text = [] then ''(no response)'' else text)
                  in (Inr \<lparr> content = Some shown,
                             toolCalls = None,
                             assistantMessage =
                               JObj [(''role'', JStr ''assistant''),
                                     (''content'', JStr shown)] \<rparr>, w')))))) \<rparr>"

subsection \<open>Google Gemini (providers/google-provider.ts)\<close>

definition GEMINI_UNSUPPORTED_KEYS :: "string list" where
  "GEMINI_UNSUPPORTED_KEYS =
     [''additionalProperties'', ''$schema'', ''$defs'', ''$ref'',
      ''examples'', ''default'', ''title'', ''definitions'']"

text \<open>
  \<^verbatim>\<open>stripGeminiUnsupported\<close> fills a fresh object by assignment, \<^verbatim>\<open>cleaned[k] = ...\<close>. For the
  key \<^verbatim>\<open>__proto__\<close>, which an object that came out of \<^verbatim>\<open>JSON.parse\<close> can have as an own
  property, the assignment runs the setter inherited from \<^verbatim>\<open>Object.prototype\<close>: it makes an
  object, an array or \<^verbatim>\<open>null\<close> the prototype of \<^verbatim>\<open>cleaned\<close>, ignores any other value, and adds
  no own property. So the values that the sanitation works on are objects with a
  prototype beside their own properties.
\<close>

datatype 'a prototype = ObjectPrototype | NullPrototype | Inherits 'a

datatype jsvalue =
  VNull
  | VBool bool
  | VNum real
  | VStr string
  | VArr "jsvalue list"
  | VObj "jsvalue prototype" "(string \<times> jsvalue) list"

text \<open>The setter of \<^verbatim>\<open>__proto__\<close>, from the value assigned and the prototype so far.\<close>

fun set_prototype :: "jsvalue \<Rightarrow> jsvalue prototype \<Rightarrow> jsvalue prototype" where
  "set_prototype VNull p = NullPrototype"
| "set_prototype (VObj q kvs) p = Inherits (VObj q kvs)"
| "set_prototype (VArr xs) p = Inherits (VArr xs)"
| "set_prototype v p = p"

text \<open>
  \<open>assigned\<close> lists the assignments that the loop over \<^verbatim>\<open>Object.entries(obj)\<close> makes, in
  order; the one to \<^verbatim>\<open>__proto__\<close> sets the prototype and the others create the own
  properties.
\<close>

fun stripGeminiUnsupported :: "json \<Rightarrow> jsvalue" where
  "stripGeminiUnsupported (JArr xs) = VArr (map stripGeminiUnsupported xs)"
| "stripGeminiUnsupported (JObj kvs) =
     (let assigned = map (\<lambda>(k, v). (k, stripGeminiUnsupported v))
            (filter (\<lambda>(k, v). k \<notin> set GEMINI_UNSUPPORTED_KEYS) kvs)
      in VObj (case map_of assigned ''__proto__'' of
                 None \<Rightarrow> ObjectPrototype
               | Some v \<Rightarrow> set_prototype v ObjectPrototype)
              (filter (\<lambda>(k, v). k \<noteq> ''__proto__'') assigned))"
| "stripGeminiUnsupported JNull = VNull"
| "stripGeminiUnsupported (JBool b) = VBool b"
| "stripGeminiUnsupported (JNum n) = VNum n"
| "stripGeminiUnsupported (JStr s) = VStr s"

definition prototype_of :: "jsvalue \<Rightarrow> jsvalue prototype" where
  "prototype_of v = (case v of VObj p kvs \<Rightarrow> p | _ \<Rightarrow> ObjectPrototype)"

definition own_properties :: "jsvalue \<Rightarrow> (string \<times> jsvalue) list" where
  "own_properties v = (case v of VObj p kvs \<Rightarrow> kvs | _ \<Rightarrow> [])"

text \<open>
  \<^verbatim>\<open>obj[k]\<close> for the two names that the sanitation reads, \<^verbatim>\<open>properties\<close> and \<^verbatim>\<open>required\<close>:
  the own property, or else the one found along the prototype chain. Neither
  \<^verbatim>\<open>Object.prototype\<close> nor an array has a property of either name.
\<close>

fun get_property :: "string \<Rightarrow> jsvalue \<Rightarrow> jsvalue option" where
  "get_property k (VObj p kvs) =
     (case map_of kvs k of
        Some v \<Rightarrow> Some v
      | None \<Rightarrow> (case p of Inherits q \<Rightarrow> get_property k q | _ \<Rightarrow> None))"
| "get_property k v = None"

text \<open>Truthiness of a value read from such an object (\<open>None\<close> is \<^verbatim>\<open>undefined\<close>).\<close>

fun is_truthy :: "jsvalue option \<Rightarrow> bool" where
  "is_truthy None = False"
| "is_truthy (Some VNull) = False"
| "is_truthy (Some (VBool b)) = b"
| "is_truthy (Some (VNum n)) = (n \<noteq> 0)"
| "is_truthy (Some (VStr s)) = (s \<noteq> [])"
| "is_truthy (Some (VArr _)) = True"
| "is_truthy (Some (VObj _ _)) = True"

text \<open>
  \<^verbatim>\<open>delete obj[k]\<close> and \<^verbatim>\<open>obj[k] = v\<close> on the own properties: an assignment keeps the place of
  a key the object already has and adds a new key at the end.
\<close>

definition delete_key :: "string \<Rightarrow> (string \<times> 'a) list \<Rightarrow> (string \<times> 'a) list" where
  "delete_key k kvs = filter (\<lambda>(k', v). k' \<noteq> k) kvs"

definition assign_key :: "string \<Rightarrow> 'a \<Rightarrow> (string \<times> 'a) list \<Rightarrow> (string \<times> 'a) list" where
  "assign_key k v kvs =
     (if k \<in> fst ` set kvs then map (\<lambda>(k', v'). if k' = k then (k', v) else (k', v')) kvs
      else kvs @ [(k, v)])"

text \<open>
  The names that every plain object inherits from \<^verbatim>\<open>Object.prototype\<close>: the \<^verbatim>\<open>in\<close> operator
  answers true for them as it does for own properties.
\<close>

definition Object_prototype_names :: "string list" where
  "Object_prototype_names =
     [''constructor'', ''__defineGetter__'', ''__defineSetter__'', ''hasOwnProperty'',
      ''__lookupGetter__'', ''__lookupSetter__'', ''isPrototypeOf'', ''propertyIsEnumerable'',
      ''toString'', ''valueOf'', ''__proto__'', ''toLocaleString'']"

text \<open>
  \<^verbatim>\<open>k in p\<close>. A right operand that is not an object throws a \<^verbatim>\<open>TypeError\<close> (its message goes on
  to name the key and the operand). A string key is looked for among the own names of
  an object and then along its prototype chain. What the runtime answers for an array,
  whose names depend on its length and on the methods of \<^verbatim>\<open>Array.prototype\<close>, and for a key
  that is not a string, which it first converts and which it may fail to convert, is
  the parameter \<open>coerced\<close>.
\<close>

fun has_property :: "(jsvalue \<Rightarrow> jsvalue \<Rightarrow> exn + bool) \<Rightarrow> string \<Rightarrow> jsvalue \<Rightarrow> exn + bool" where
  "has_property coerced s (VObj p kvs) =
     (if s \<in> fst ` set kvs then Inr True
      else (case p of
              ObjectPrototype \<Rightarrow> Inr (s \<in> set Object_prototype_names)
            | NullPrototype \<Rightarrow> Inr False
            | Inherits q \<Rightarrow> has_property coerced s q))"
| "has_property coerced s v = coerced (VStr s) v"

definition js_in :: "(jsvalue \<Rightarrow> jsvalue \<Rightarrow> exn + bool) \<Rightarrow> jsvalue \<Rightarrow> jsvalue \<Rightarrow> exn + bool" where
  "js_in coerced k p =
     (case p of
        VObj q kvs \<Rightarrow>
          (case k of
             VStr s \<Rightarrow> has_property coerced s p
           | _ \<Rightarrow> coerced k p)
      | VArr xs \<Rightarrow> coerced k p
      | _ \<Rightarrow> Inl ''TypeError: Cannot use 'in' operator'')"

text \<open>\<^verbatim>\<open>required.filter((k) => k in props)\<close>; the first throwing test ends the filter.\<close>

fun filter_in ::
  "(jsvalue \<Rightarrow> jsvalue \<Rightarrow> exn + bool) \<Rightarrow> jsvalue list \<Rightarrow> jsvalue \<Rightarrow> exn + jsvalue list" where
  "filter_in coerced [] p = Inr []"
| "filter_in coerced (k # ks) p =
     (case js_in coerced k p of
        Inl err \<Rightarrow> Inl err
      | Inr b \<Rightarrow>
          (case filter_in coerced ks p of
             Inl err \<Rightarrow> Inl err
           | Inr ks' \<Rightarrow> Inr (if b then k # ks' else ks')))"

text \<open>
  \<^verbatim>\<open>sanitizeGeminiParams\<close>: \<open>stripped\<close> holds the own properties of the object under repair,
  \<open>proto\<close> its prototype. The two reads go along the prototype chain; \<^verbatim>\<open>delete\<close> and the
  assignment act on the own properties.
\<close>

definition sanitizeGeminiParams ::
  "(jsvalue \<Rightarrow> jsvalue \<Rightarrow> exn + bool) \<Rightarrow> (string \<times> json) list \<Rightarrow> exn + jsvalue" where
  "sanitizeGeminiParams coerced raw =
     (let cleaned = stripGeminiUnsupported (JObj raw);
          proto = prototype_of cleaned;
          stripped = delete_key ''type'' (own_properties cleaned);
          props = get_property ''properties'' (VObj proto stripped);
          required = get_property ''required'' (VObj proto stripped)
      in case (required, props) of
           (Some (VArr rs), Some p) \<Rightarrow>
             (if is_truthy props then
                (case filter_in coerced rs p of
                   Inl err \<Rightarrow> Inl err
                 | Inr kept \<Rightarrow>
                     (if length kept = 0 then Inr (VObj proto (delete_key ''required'' stripped))
                      else Inr (VObj proto (assign_key ''required'' (VArr kept) stripped))))
              else Inr (VObj proto (delete_key ''required'' stripped)))
         | _ \<Rightarrow>
             (if is_truthy required then Inr (VObj proto (delete_key ''required'' stripped))
              else Inr (VObj proto stripped)))"

text \<open>A function declaration sent to Gemini and a function call it answers with.\<close>

record FunctionDeclaration =
  decl_name :: string
  decl_description :: string
  decl_parameters :: "(string \<times> jsvalue) list"

record FunctionCall =
  fc_name :: string
  fc_args :: json

text \<open>
  What the SDK's response object offers: \<^verbatim>\<open>functionCalls()\<close> (possibly \<^verbatim>\<open>undefined\<close>) and
  \<^verbatim>\<open>text()\<close>, which throws for a blocked answer.
\<close>

record GenerateContentResponse =
  functionCalls :: "FunctionCall list option"
  response_text :: "exn + string"

text \<open>
  \<^verbatim>\<open>tools.map(...)\<close> building \<^verbatim>\<open>geminiToolDecls\<close>: the first schema whose sanitation throws
  ends it. The spread \<^verbatim>\<open>{ type: "OBJECT", ...clean }\<close> copies the own properties of \<^verbatim>\<open>clean\<close>
  into a plain object.
\<close>

fun geminiToolDecls ::
  "(jsvalue \<Rightarrow> jsvalue \<Rightarrow> exn + bool) \<Rightarrow> ChatCompletionTool list
    \<Rightarrow> exn + FunctionDeclaration list" where
  "geminiToolDecls coerced [] = Inr []"
| "geminiToolDecls coerced (t # ts) =
     (case sanitizeGeminiParams coerced
             (case function_parameters t of Some raw \<Rightarrow> raw | None \<Rightarrow> []) of
        Inl err \<Rightarrow> Inl err
      | Inr clean \<Rightarrow>
          (case geminiToolDecls coerced ts of
             Inl err \<Rightarrow> Inl err
           | Inr decls \<Rightarrow>
               Inr (\<lparr> decl_name = function_name t,
                      decl_description =
                        (case function_description t of Some d \<Rightarrow> d | None \<Rightarrow> []),
                      decl_parameters = (''type'', VStr ''OBJECT'') # own_properties clean \<rparr>
                    # decls)))"

text \<open>Decimal digits of a counter, for \<^verbatim>\<open>`gemini-${callIdx++}`\<close>.\<close>

definition digit :: "nat \<Rightarrow> char" where
  "digit d = ''0123456789'' ! d"

fun decimal :: "nat \<Rightarrow> string" where
  "decimal n =
     (if n < 10 then [digit n]
      else decimal (n div 10) @ [digit (n mod 10)])"

text \<open>
  The model request: the result \<open>'h\<close> of \<^verbatim>\<open>toGeminiHistory\<close> (system text, history and last
  user message; a parameter, as no property below depends on it, which throws where
  stored tool-call arguments do not parse) and the function declarations, present only
  when there are some.
\<close>

record 'h GeminiRequest =
  request_model :: string
  request_history :: 'h
  request_tools :: "FunctionDeclaration list option"

definition createGoogleProvider ::
  "(json \<Rightarrow> string) \<Rightarrow> (jsvalue \<Rightarrow> jsvalue \<Rightarrow> exn + bool) \<Rightarrow> (json list \<Rightarrow> exn + 'h)
    \<Rightarrow> string
    \<Rightarrow> ('h GeminiRequest \<Rightarrow> 'w \<Rightarrow> (exn + GenerateContentResponse) \<times> 'w)
    \<Rightarrow> 'w LLMProvider" where
  "createGoogleProvider JSON_stringify coerced toGeminiHistory model genAI =
     \<lparr> provider_id = ''google'', provider_name = ''Google Gemini'', defaultModel = model,
       complete = (\<lambda>messages tools w.
         (case toGeminiHistory messages of
            Inl err \<Rightarrow> (Inl err, w)
          | Inr history \<Rightarrow>
         (case geminiToolDecls coerced tools of
            Inl err \<Rightarrow> (Inl err, w)
          | Inr decls \<Rightarrow>
              (case genAI \<lparr> request_model = model, request_history = history,
                             request_tools = (if length decls > 0 then Some decls else None) \<rparr> w of
                 (Inl err, w') \<Rightarrow> (Inl err, w')
               | (Inr response, w') \<Rightarrow>
                   (if (case functionCalls response of
                          Some fnCalls \<Rightarrow> length fnCalls > 0 | None \<Rightarrow> False)
                    then
                      (let fnCalls = (case functionCalls response of
                                        Some fcs \<Rightarrow> fcs | None \<Rightarrow> []);
                           calls = map (\<lambda>(callIdx, fc).
                                     \<lparr> call_id = ''gemini-'' @ decimal callIdx,
                                       call_name = fc_name fc,
                                       call_arguments = JSON_stringify (fc_args fc) \<rparr>)
                                     (enumerate 0 fnCalls)
                       in (Inr \<lparr> content = None,
                                  toolCalls = Some calls,
                                  assistantMessage =
                                    JObj [(''role'', JStr ''assistant''),
                                          (''content'', JNull),
                                          (''tool_calls'', JArr (map (\<lambda>tc.
                                             openai_tool_call (call_id tc) (call_name tc)
                                               (call_arguments tc)) calls))] \<rparr>, w'))
                    else
                      (case response_text response of
                         Inl err \<Rightarrow> (Inl err, w')
                       | Inr text \<Rightarrow>
                           (let shown = (if text = [] then ''(no response)'' else text)
                            in (Inr \<lparr> content = Some shown,
                                       toolCalls = None,
                                       assistantMessage =
                                         JObj [(''role'', JStr ''assistant''),
                                               (''content'', JStr shown)] \<rparr>, w')))))))) \<rparr>"

text \<open>
  What the specification asks of a schema sent to Gemini: no unsupported keyword at any
  depth, and at every object every entry of a \<^verbatim>\<open>required\<close> list names a property declared
  in the \<^verbatim>\<open>properties\<close> object beside it. What is sent is the JSON text of the
  declaration, which holds the own properties of each object and nothing of its
  prototype.
\<close>

fun mentions_unsupported :: "jsvalue \<Rightarrow> bool" where
  "mentions_unsupported (VObj p kvs) =
     list_ex (\<lambda>kv. fst kv \<in> set GEMINI_UNSUPPORTED_KEYS \<or> mentions_unsupported (snd kv)) kvs"
| "mentions_unsupported (VArr xs) = list_ex mentions_unsupported xs"
| "mentions_unsupported j = False"

fun required_declared :: "jsvalue \<Rightarrow> bool" where
  "required_declared (VObj p kvs) =
     ((case map_of kvs ''required'' of
         Some (VArr rs) \<Rightarrow>
           list_all (\<lambda>r. case r of
                            VStr s \<Rightarrow>
                              (case map_of kvs ''properties'' of
                                 Some (VObj q ps) \<Rightarrow> s \<in> fst ` set ps
                               | _ \<Rightarrow> False)
                          | _ \<Rightarrow> False) rs
       | _ \<Rightarrow> True) \<and>
      list_all (\<lambda>kv. required_declared (snd kv)) kvs)"
| "required_declared (VArr xs) = list_all required_declared xs"
| "required_declared j = True"

text \<open>
  The invariant of the stripping: no unsupported key among the own properties at any
  depth, those of the prototypes included.
\<close>

fun stripped_throughout :: "jsvalue \<Rightarrow> bool" where
  "stripped_throughout (VObj p kvs) =
     ((case p of Inherits q \<Rightarrow> stripped_throughout q | _ \<Rightarrow> True) \<and>
      list_all (\<lambda>kv. fst kv \<notin> set GEMINI_UNSUPPORTED_KEYS \<and> stripped_throughout (snd kv)) kvs)"
| "stripped_throughout (VArr xs) = list_all stripped_throughout xs"
| "stripped_throughout j = True"

text \<open>
  The contract of \<^verbatim>\<open>complete\<close> in the words of the specification: content is null exactly
  when the tool calls are a non-empty list, and the tool calls are null exactly when the
  content is a string.
\<close>

definition exactly_one_non_null :: "LLMResponse \<Rightarrow> bool" where
  "exactly_one_non_null r =
     ((content r = None \<longleftrightarrow> (case toolCalls r of Some tcs \<Rightarrow> tcs \<noteq> [] | None \<Rightarrow> False)) \<and>
      (toolCalls r = None \<longleftrightarrow> content r \<noteq> None))"

section \<open>The agentic loop (agent.ts)\<close>

text \<open>Characters outside ASCII appear as their UTF-8 bytes.\<close>

definition newline :: string where
  "newline = [CHR 0x0A]"

definition bullet :: string where
  "bullet = [CHR 0xE2, CHR 0x80, CHR 0xA2]"

definition em_dash :: string where
  "em_dash = [CHR 0xE2, CHR 0x80, CHR 0x94]"

definition warning_sign :: string where
  "warning_sign = [CHR 0xE2, CHR 0x9A, CHR 0xA0, CHR 0xEF, CHR 0xB8, CHR 0x8F]"

text \<open>\<^verbatim>\<open>parts.join(sep)\<close>\<close>

fun join :: "string \<Rightarrow> string list \<Rightarrow> string" where
  "join sep [] = []"
| "join sep [x] = x"
| "join sep (x # y # ys) = x @ sep @ join sep (y # ys)"

record CoreMemory =
  cm_key :: string
  cm_label :: string
  cm_value :: string

record MemoryRecord =
  mr_title :: string
  mr_body :: string

text \<open>
  What the loop reads from its surroundings. The world \<open>'w\<close> holds everything outside the
  turn: the backends, the database, the files, the module variables.
  \<^item> \<open>AGENT_MAX_ITERATIONS\<close> and \<open>OPENAI_API_KEY_set\<close> come from the validated configuration;
  \<^item> \<open>BASE_SYSTEM_PROMPT\<close> is the module variable that \<^verbatim>\<open>reloadSoul\<close> rewrites;
  \<^item> \<open>getActiveProvider\<close> builds the provider on first use and throws for a missing key;
  \<^item> \<open>registry\<close> is the \<^verbatim>\<open>tools\<close> array of tools/index.ts and \<open>runtime_JSON_parse\<close> the
    runtime's \<^verbatim>\<open>JSON.parse\<close>;
  \<^item> \<open>completes_next\<close> is the scheduler: among the pending tool calls of a batch, the one
    at this index (modulo their number) is the next to finish;
  \<^item> \<open>create_extraction\<close> is the \<^verbatim>\<open>gpt-4o-mini\<close> call of the background job, giving
    \<^verbatim>\<open>response.choices[0]?.message?.content\<close>;
  \<^item> \<open>saveNote\<close> (memory.ts) stores a note and may throw; \<open>String_trim\<close> is the runtime's
    \<^verbatim>\<open>trim\<close>.
\<close>

record 'w Agent =
  AGENT_MAX_ITERATIONS :: nat
  OPENAI_API_KEY_set :: bool
  BASE_SYSTEM_PROMPT :: "'w \<Rightarrow> string"
  getAllCoreMemories :: "'w \<Rightarrow> CoreMemory list"
  isSupabaseConfigured :: bool
  semanticSearch :: "string \<Rightarrow> nat \<Rightarrow> 'w \<Rightarrow> (exn + MemoryRecord list) \<times> 'w"
  getActiveProvider :: "'w \<Rightarrow> (exn + 'w LLMProvider) \<times> 'w"
  registry :: "'w ToolDefinition list"
  runtime_JSON_parse :: "string \<Rightarrow> json option"
  completes_next :: "'w \<Rightarrow> nat"
  create_extraction :: "string \<Rightarrow> 'w \<Rightarrow> (exn + string option) \<times> 'w"
  saveNote :: "string \<Rightarrow> string \<Rightarrow> 'w \<Rightarrow> exn option \<times> 'w"
  String_trim :: "string \<Rightarrow> string"

definition buildSystemPrompt :: "'w Agent \<Rightarrow> string \<Rightarrow> 'w \<Rightarrow> string \<times> 'w" where
  "buildSystemPrompt env userMessage w =
     (let coreMemories = getAllCoreMemories env w;
          coreBlock =
            (if length coreMemories > 0
             then newline @ newline @ ''[OWNER PROFILE '' @ em_dash @
                    '' always accurate, set by /setup]'' @ newline @
                  join newline (map (\<lambda>m. bullet @ '' '' @ cm_label m @ '': '' @ cm_value m)
                    coreMemories)
             else []);
          baseWithCore = BASE_SYSTEM_PROMPT env w @ coreBlock
      in if \<not> isSupabaseConfigured env then (baseWithCore, w)
         else
           (case semanticSearch env userMessage 3 w of
              (Inl err, w') \<Rightarrow> (baseWithCore, w')
            | (Inr memories, w') \<Rightarrow>
                (if length memories = 0 then (baseWithCore, w')
                 else
                   (let memBlock =
                          join newline (map (\<lambda>m. bullet @ '' '' @ mr_title m @ '': '' @ mr_body m)
                            memories)
                    in (baseWithCore @ newline @ newline @ ''[MEMORY CONTEXT '' @ em_dash @
                          '' retrieved from your long-term memory based on this message]'' @
                          newline @ memBlock, w')))))"

subsection \<open>Background fact extraction\<close>

definition extractionPrompt :: "string \<Rightarrow> string \<Rightarrow> string" where
  "extractionPrompt userMessage assistantReply =
     ''You are a memory extraction assistant. Given the exchange below, extract up to 5 '' @
     ''specific, memorable facts, preferences, goals, decisions, or personal details that '' @
     ''were shared.'' @ newline @ newline @
     ''Output ONLY a JSON array like: [{\"title\": \"short label\", \"body\": \"concise fact\"}]'' @
     newline @
     ''If there is nothing worth saving (small talk, questions with no new info), output: []'' @
     newline @ newline @
     ''User: '' @ userMessage @ newline @
     ''Assistant: '' @ assistantReply @ newline @ newline @
     ''Remember: only save concrete, reusable information. Do NOT save conversational filler.''"

text \<open>
  The \<^verbatim>\<open>for\<close> loop over \<^verbatim>\<open>facts.slice(0, 5)\<close>. Reading a property of \<^verbatim>\<open>null\<close> throws, as does
  \<^verbatim>\<open>.trim()\<close> on a truthy value that is not a string; \<open>Inl\<close> is what the \<^verbatim>\<open>try\<close> block
  throws.
\<close>

fun save_facts :: "'w Agent \<Rightarrow> json list \<Rightarrow> 'w \<Rightarrow> (exn + unit) \<times> 'w" where
  "save_facts env [] w = (Inr (), w)"
| "save_facts env (item # items) w =
     (case item of
        JNull \<Rightarrow> (Inl ''TypeError: Cannot read properties of null (reading 'title')'', w)
      | _ \<Rightarrow>
          (if truthy (field ''title'' item) \<and> truthy (field ''body'' item) then
             (case (field ''title'' item, field ''body'' item) of
                (Some (JStr title), Some (JStr body)) \<Rightarrow>
                  (case saveNote env (String_trim env title) (String_trim env body) w of
                     (Some err, w') \<Rightarrow> (Inl err, w')
                   | (None, w') \<Rightarrow> save_facts env items w')
              | (Some (JStr title), _) \<Rightarrow>
                  (Inl ''TypeError: fact.body.trim is not a function'', w)
              | _ \<Rightarrow> (Inl ''TypeError: fact.title.trim is not a function'', w))
           else save_facts env items w))"

text \<open>The body of the \<^verbatim>\<open>try\<close> block of \<^verbatim>\<open>extractAndSaveFacts\<close>.\<close>

definition extraction_attempt ::
  "'w Agent \<Rightarrow> string \<Rightarrow> string \<Rightarrow> 'w \<Rightarrow> (exn + unit) \<times> 'w" where
  "extraction_attempt env userMessage assistantReply w =
     (case create_extraction env (extractionPrompt userMessage assistantReply) w of
        (Inl err, w') \<Rightarrow> (Inl err, w')
      | (Inr answer, w') \<Rightarrow>
          (let raw = (case answer of Some c \<Rightarrow> c | None \<Rightarrow> ''{}'') in
           case runtime_JSON_parse env raw of
             None \<Rightarrow> (Inl ''SyntaxError'', w')
           | Some parsed \<Rightarrow>
               (let facts =
                      (case parsed of
                         JArr xs \<Rightarrow> xs
                       | JObj kvs \<Rightarrow>
                           (case map_of kvs ''facts'' of Some (JArr xs) \<Rightarrow> xs | _ \<Rightarrow> [])
                       | _ \<Rightarrow> [])
                in save_facts env (take 5 facts) w')))"

text \<open>
  \<^verbatim>\<open>extractAndSaveFacts\<close>: \<open>Inl\<close> would be a rejected promise. The \<^verbatim>\<open>catch\<close> clause logs the
  error and falls through.
\<close>

definition extractAndSaveFacts ::
  "'w Agent \<Rightarrow> string \<Rightarrow> string \<Rightarrow> 'w \<Rightarrow> (exn + unit) \<times> 'w" where
  "extractAndSaveFacts env userMessage assistantReply w =
     (if \<not> OPENAI_API_KEY_set env then (Inr (), w)
      else
        (case extraction_attempt env userMessage assistantReply w of
           (Inl err, w') \<Rightarrow> (Inr (), w')
         | (Inr u, w') \<Rightarrow> (Inr (), w')))"

subsection \<open>One batch of tool calls\<close>

text \<open>The tool-result message built for a call once its output is there.\<close>

definition tool_message :: "ToolCall \<Rightarrow> string \<Rightarrow> json" where
  "tool_message call output =
     JObj [(''role'', JStr ''tool''), (''tool_call_id'', JStr (call_id call)),
           (''content'', JStr output)]"

lemma remove_pending_shorter:
  assumes "pending \<noteq> []"
  shows "length (take (k mod length pending) pending @ drop (Suc (k mod length pending)) pending)
      < length pending"
proof -
  from assms have "k mod length pending < length pending"
    by simp
  then show ?thesis
    by simp
qed

text \<open>
  \<^verbatim>\<open>result.toolCalls.map(async (call) => ...)\<close> starts one dispatch per call; they finish in
  an order the loop does not control. \<open>settle\<close> runs the pending calls, each paired with
  its position in the request, in the order the scheduler picks, one dispatch at a time,
  and lists the finished (position, message) pairs in order of completion. Should a
  dispatch reject, the batch rejects.
\<close>

function settle ::
  "'w Agent \<Rightarrow> (nat \<times> ToolCall) list \<Rightarrow> 'w \<Rightarrow> (exn + (nat \<times> json) list) \<times> 'w" where
  "settle env pending w =
     (if pending = [] then (Inr [], w)
      else
        (let i = completes_next env w mod length pending;
             call = snd (pending ! i)
         in case dispatchTool (runtime_JSON_parse env) (registry env)
                   (call_name call) (call_arguments call) w of
              (Inl err, w') \<Rightarrow> (Inl err, w')
            | (Inr output, w') \<Rightarrow>
                (case settle env (take i pending @ drop (Suc i) pending) w' of
                   (Inl err, w'') \<Rightarrow> (Inl err, w'')
                 | (Inr settled, w'') \<Rightarrow>
                     (Inr ((fst (pending ! i), tool_message call output) # settled), w''))))"
  by pat_completeness auto
termination
  apply (relation "measure (\<lambda>(env, pending, w). length pending)")
   apply simp
  apply (simp only: in_measure prod.case)
  apply (erule remove_pending_shorter)
  done

declare settle.simps [simp del]

text \<open>
  \<^verbatim>\<open>await Promise.all(...)\<close>: the array of the results, each at the position of its call,
  whatever the order of completion.
\<close>

definition Promise_all_toolResults ::
  "'w Agent \<Rightarrow> ToolCall list \<Rightarrow> 'w \<Rightarrow> (exn + json list) \<times> 'w" where
  "Promise_all_toolResults env calls w =
     (case settle env (enumerate 0 calls) w of
        (Inl err, w') \<Rightarrow> (Inl err, w')
      | (Inr settled, w') \<Rightarrow> (Inr (map snd (sort_key fst settled)), w'))"

subsection \<open>The turn\<close>

record TurnResult =
  reply :: string
  updatedHistory :: "json list"

definition max_iterations_reply :: string where
  "max_iterations_reply =
     warning_sign @ '' I hit my maximum tool-call limit for this turn. '' @
     ''Please try again or rephrase your request.''"

text \<open>
  The \<^verbatim>\<open>while\<close> loop of \<^verbatim>\<open>runAgentTurn\<close> with the statements after it, as a function of the
  loop variables \<open>iterations\<close> and \<open>messages\<close> and of the world. Beside the turn's
  result it returns \<open>calls\<close>, the record of the invocations of \<^verbatim>\<open>provider.complete\<close>
  made so far, each with the messages passed and the outcome. The code keeps no such
  list and nothing in the result depends on it; it is there for the properties that
  count the provider calls. \<^verbatim>\<open>messages.slice(1)\<close> is \<open>drop 1\<close>.
\<close>

function agent_loop ::
  "'w Agent \<Rightarrow> string \<Rightarrow> nat \<Rightarrow> json list \<Rightarrow> (json list \<times> (exn + LLMResponse)) list \<Rightarrow> 'w
    \<Rightarrow> (exn + TurnResult) \<times> (json list \<times> (exn + LLMResponse)) list \<times> 'w" where
  "agent_loop env userMessage iterations messages calls w =
     (if iterations < AGENT_MAX_ITERATIONS env then
        (case getActiveProvider env w of
           (Inl err, w1) \<Rightarrow> (Inl err, calls, w1)
         | (Inr provider, w1) \<Rightarrow>
             (case complete provider messages (getOpenAITools (registry env)) w1 of
                (Inl err, w2) \<Rightarrow> (Inl err, calls @ [(messages, Inl err)], w2)
              | (Inr result, w2) \<Rightarrow>
                  (let pushed = messages @ [assistantMessage result];
                       calls' = calls @ [(messages, Inr result)]
                   in if (case toolCalls result of None \<Rightarrow> True | Some tcs \<Rightarrow> length tcs = 0)
                      then
                        (let answer = (case content result of
                                         Some c \<Rightarrow> c | None \<Rightarrow> ''(no response)'');
                             (settled, w3) = extractAndSaveFacts env userMessage answer w2
                         in (Inr \<lparr> reply = answer, updatedHistory = drop 1 pushed \<rparr>,
                             calls', w3))
                      else
                        (case Promise_all_toolResults env
                                (case toolCalls result of Some tcs \<Rightarrow> tcs | None \<Rightarrow> []) w2 of
                           (Inl err, w3) \<Rightarrow> (Inl err, calls', w3)
                         | (Inr toolResults, w3) \<Rightarrow>
                             agent_loop env userMessage (iterations + 1)
                               (pushed @ toolResults) calls' w3))))
      else (Inr \<lparr> reply = max_iterations_reply, updatedHistory = drop 1 messages \<rparr>, calls, w))"
  by pat_completeness auto
termination
  by (relation "measure (\<lambda>(env, userMessage, iterations, messages, calls, w).
        AGENT_MAX_ITERATIONS env - iterations)") auto

declare agent_loop.simps [simp del]

text \<open>The messages of a turn's first request.\<close>

definition system_message :: "string \<Rightarrow> json" where
  "system_message systemPrompt = JObj [(''role'', JStr ''system''), (''content'', JStr systemPrompt)]"

definition user_message :: "string \<Rightarrow> json" where
  "user_message userMessage = JObj [(''role'', JStr ''user''), (''content'', JStr userMessage)]"

text \<open>\<^verbatim>\<open>runAgentTurn\<close> together with the record of its provider calls.\<close>

definition runAgentTurn_traced ::
  "'w Agent \<Rightarrow> json list \<Rightarrow> string \<Rightarrow> 'w
    \<Rightarrow> (exn + TurnResult) \<times> (json list \<times> (exn + LLMResponse)) list \<times> 'w" where
  "runAgentTurn_traced env history userMessage w =
     (case buildSystemPrompt env userMessage w of
        (systemPrompt, w0) \<Rightarrow>
          agent_loop env userMessage 0
            ([system_message systemPrompt] @ history @ [user_message userMessage]) [] w0)"

definition runAgentTurn ::
  "'w Agent \<Rightarrow> json list \<Rightarrow> string \<Rightarrow> 'w \<Rightarrow> (exn + TurnResult) \<times> 'w" where
  "runAgentTurn env history userMessage w =
     (case runAgentTurn_traced env history userMessage w of (outcome, calls, w') \<Rightarrow> (outcome, w'))"

definition provider_calls ::
  "'w Agent \<Rightarrow> json list \<Rightarrow> string \<Rightarrow> 'w \<Rightarrow> (json list \<times> (exn + LLMResponse)) list" where
  "provider_calls env history userMessage w =
     (case runAgentTurn_traced env history userMessage w of (outcome, calls, w') \<Rightarrow> calls)"

text \<open>The text of a response that ends the loop, and whether a response asks for tools.\<close>

definition final_text :: "LLMResponse \<Rightarrow> string" where
  "final_text r = (case content r of Some c \<Rightarrow> c | None \<Rightarrow> ''(no response)'')"

definition requests_tools :: "LLMResponse \<Rightarrow> bool" where
  "requests_tools r = (case toolCalls r of Some tcs \<Rightarrow> tcs \<noteq> [] | None \<Rightarrow> False)"

text \<open>
  An agent whose provider can always be built and answers every request with tool calls.
\<close>

definition always_requests_tools :: "'w Agent \<Rightarrow> bool" where
  "always_requests_tools env \<longleftrightarrow>
     (\<forall>w. \<exists>p w1. getActiveProvider env w = (Inr p, w1) \<and>
        (\<forall>m ts w'. \<exists>r w''. complete p m ts w' = (Inr r, w'') \<and> requests_tools r))"

text \<open>
  A counter of the provider calls: an observation \<open>counter\<close> of the world that every call of
  \<^verbatim>\<open>complete\<close> of an active provider raises by one, and that nothing else the turn does
  changes: looking up the provider, the memory search, the tools, the background
  extraction. A backend that numbers the requests it receives is such a counter.
\<close>

definition counts_provider_calls :: "('w \<Rightarrow> nat) \<Rightarrow> 'w Agent \<Rightarrow> bool" where
  "counts_provider_calls counter env \<longleftrightarrow>
     (\<forall>w. counter (snd (getActiveProvider env w)) = counter w) \<and>
     (\<forall>w p w1. getActiveProvider env w = (Inr p, w1) \<longrightarrow>
        (\<forall>ms ts w'. counter (snd (complete p ms ts w')) = Suc (counter w'))) \<and>
     (\<forall>query k w. counter (snd (semanticSearch env query k w)) = counter w) \<and>
     (\<forall>tool \<in> set (registry env). \<forall>args w. counter (snd (execute tool args w)) = counter w) \<and>
     (\<forall>prompt w. counter (snd (create_extraction env prompt w)) = counter w) \<and>
     (\<forall>title body w. counter (snd (saveNote env title body w)) = counter w)"

text \<open>
  An agent whose providers give every assistant message the role \<^verbatim>\<open>assistant\<close>, as the
  Anthropic and the Google adapter do.
\<close>

definition answers_as_assistant :: "'w Agent \<Rightarrow> bool" where
  "answers_as_assistant env \<longleftrightarrow>
     (\<forall>w p w1. getActiveProvider env w = (Inr p, w1) \<longrightarrow>
        (\<forall>ms ts w2 resp w3. complete p ms ts w2 = (Inr resp, w3) \<longrightarrow>
           field ''role'' (assistantMessage resp) = Some (JStr ''assistant'')))"

text \<open>
  The two ways a turn can end, read off the record of the provider calls: with the text
  of a last response that asks for no tools, or at the cap after \<open>cap\<close> responses that
  all asked for tools.
\<close>

definition asked_for_tools :: "json list \<times> (exn + LLMResponse) \<Rightarrow> bool" where
  "asked_for_tools c = (case snd c of Inr resp \<Rightarrow> requests_tools resp | Inl err \<Rightarrow> False)"

definition ended_with_reply :: "(json list \<times> (exn + LLMResponse)) list \<Rightarrow> TurnResult \<Rightarrow> bool" where
  "ended_with_reply calls r =
     (calls \<noteq> [] \<and>
      (case snd (last calls) of
         Inr resp \<Rightarrow> \<not> requests_tools resp \<and> reply r = final_text resp
       | Inl err \<Rightarrow> False))"

definition ended_at_cap ::
  "nat \<Rightarrow> (json list \<times> (exn + LLMResponse)) list \<Rightarrow> TurnResult \<Rightarrow> bool" where
  "ended_at_cap cap calls r =
     (reply r = max_iterations_reply \<and> length calls = cap \<and> list_all asked_for_tools calls)"

text \<open>The assistant messages that the provider returned during a turn.\<close>

definition assistant_messages :: "(json list \<times> (exn + LLMResponse)) list \<Rightarrow> json list" where
  "assistant_messages calls =
     concat (map (\<lambda>c. case snd c of Inr resp \<Rightarrow> [assistantMessage resp] | Inl err \<Rightarrow> []) calls)"

section \<open>Conversation store (memory.ts)\<close>

text \<open>
  The tables of the SQLite file, as the \<^verbatim>\<open>CREATE TABLE\<close> statements and the migration declare
  them. \<^verbatim>\<open>raw_json\<close> is null in rows written before the column was added.
\<close>

record message_row =
  row_id :: nat
  row_chat_id :: int
  row_role :: string
  row_content :: string
  row_ts :: int
  row_raw_json :: "string option"

record note_row =
  note_id :: nat
  note_title :: string
  note_body :: string
  note_ts :: int

text \<open>
  The database: the rows of each table in storage order, and for the two
  \<^verbatim>\<open>AUTOINCREMENT\<close> tables the largest rowid ever handed out (\<^verbatim>\<open>sqlite_sequence\<close>).
  \<open>notes_fts\<close> is the full-text index that the triggers keep in step with \<open>notes\<close>;
  \<open>core_memories\<close> and \<open>setup_state\<close> (core-memory.ts) live in the same file.
\<close>

record Database =
  messages_table :: "message_row list"
  messages_sequence :: nat
  notes_table :: "note_row list"
  notes_sequence :: nat
  notes_fts :: "(nat \<times> string \<times> string) list"
  core_memories_table :: "CoreMemory list"
  setup_state_table :: "(int \<times> int) list"

text \<open>
  \<^verbatim>\<open>INSERT INTO messages (chat_id, role, content, raw_json) VALUES (?, ?, ?, ?)\<close>: the new
  rowid is one more than the largest that the table holds or ever held; \<^verbatim>\<open>ts\<close> defaults to
  \<^verbatim>\<open>unixepoch()\<close>, the clock reading \<open>now\<close>.
\<close>

definition largest_rowid :: "message_row list \<Rightarrow> nat" where
  "largest_rowid rows = foldr (\<lambda>r a. max (row_id r) a) rows 0"

definition stmtInsertMsg :: "int \<Rightarrow> int \<Rightarrow> string \<Rightarrow> string \<Rightarrow> string \<Rightarrow> Database \<Rightarrow> Database" where
  "stmtInsertMsg now chatId role_text content_text rawJson db =
     (let rowid = Suc (max (messages_sequence db) (largest_rowid (messages_table db)))
      in db\<lparr> messages_table := messages_table db @
                [\<lparr> row_id = rowid, row_chat_id = chatId, row_role = role_text,
                   row_content = content_text, row_ts = now, row_raw_json = Some rawJson \<rparr>],
              messages_sequence := rowid \<rparr>)"

text \<open>\<^verbatim>\<open>SELECT role, content, raw_json FROM messages WHERE chat_id = ? ORDER BY id ASC\<close>\<close>

definition stmtLoadMsgs :: "int \<Rightarrow> Database \<Rightarrow> message_row list" where
  "stmtLoadMsgs chatId db =
     sort_key row_id (filter (\<lambda>r. row_chat_id r = chatId) (messages_table db))"

text \<open>\<^verbatim>\<open>DELETE FROM messages WHERE chat_id = ?\<close>\<close>

definition stmtDeleteMsgs :: "int \<Rightarrow> Database \<Rightarrow> Database" where
  "stmtDeleteMsgs chatId db =
     db\<lparr> messages_table := filter (\<lambda>r. row_chat_id r \<noteq> chatId) (messages_table db) \<rparr>"

text \<open>
  \<^verbatim>\<open>loadHistory\<close>: a row with a non-empty \<^verbatim>\<open>raw_json\<close> is parsed, which throws for text
  that is not JSON; a legacy row is rebuilt from role and content.
\<close>

definition load_row :: "(string \<Rightarrow> json option) \<Rightarrow> message_row \<Rightarrow> exn + json" where
  "load_row JSON_parse r =
     (if (case row_raw_json r of Some raw \<Rightarrow> raw \<noteq> [] | None \<Rightarrow> False) then
        (case JSON_parse (case row_raw_json r of Some raw \<Rightarrow> raw | None \<Rightarrow> []) of
           None \<Rightarrow> Inl ''SyntaxError''
         | Some parsed \<Rightarrow> Inr parsed)
      else Inr (JObj [(''role'', JStr (row_role r)), (''content'', JStr (row_content r))]))"

fun load_rows :: "(string \<Rightarrow> json option) \<Rightarrow> message_row list \<Rightarrow> exn + json list" where
  "load_rows JSON_parse [] = Inr []"
| "load_rows JSON_parse (r # rows) =
     (case load_row JSON_parse r of
        Inl err \<Rightarrow> Inl err
      | Inr msg \<Rightarrow>
          (case load_rows JSON_parse rows of
             Inl err \<Rightarrow> Inl err
           | Inr msgs \<Rightarrow> Inr (msg # msgs)))"

definition loadHistory :: "(string \<Rightarrow> json option) \<Rightarrow> int \<Rightarrow> Database \<Rightarrow> exn + json list" where
  "loadHistory JSON_parse chatId db = load_rows JSON_parse (stmtLoadMsgs chatId db)"

text \<open>
  Binding \<^verbatim>\<open>msg.role\<close> to the \<^verbatim>\<open>TEXT NOT NULL\<close> column. A string is stored as it is and a
  number as the text SQLite renders it to (the parameter \<open>number_text\<close>); \<^verbatim>\<open>null\<close> is bound
  as \<^verbatim>\<open>NULL\<close>, which violates the constraint when the statement runs; better-sqlite3 refuses
  a boolean.
\<close>

fun bind_value :: "(real \<Rightarrow> string) \<Rightarrow> json \<Rightarrow> exn + string" where
  "bind_value number_text (JStr s) = Inr s"
| "bind_value number_text (JNum n) = Inr (number_text n)"
| "bind_value number_text JNull = Inl ''SqliteError: NOT NULL constraint failed: messages.role''"
| "bind_value number_text v =
     Inl ''TypeError: SQLite3 can only bind numbers, strings, bigints, buffers, and null''"

text \<open>
  The role as an argument of \<^verbatim>\<open>stmtInsertMsg.run\<close>. A missing role is \<^verbatim>\<open>undefined\<close>, bound as
  \<^verbatim>\<open>NULL\<close>. better-sqlite3 takes an array argument for a list of positional parameters and
  a plain object for the named parameters: an array of one value stands for that value,
  and any other array or object leaves the statement, which has four positional
  parameters and no named one, with too few or too many values, unless one of the
  first four elements of the array cannot be bound at all.
\<close>

definition bind_text :: "(real \<Rightarrow> string) \<Rightarrow> json option \<Rightarrow> exn + string" where
  "bind_text number_text v =
     (case v of
        None \<Rightarrow> Inl ''SqliteError: NOT NULL constraint failed: messages.role''
      | Some (JObj kvs) \<Rightarrow> Inl ''RangeError: Too few parameter values were provided''
      | Some (JArr []) \<Rightarrow> Inl ''RangeError: Too few parameter values were provided''
      | Some (JArr [x]) \<Rightarrow> bind_value number_text x
      | Some (JArr xs) \<Rightarrow>
          (if list_all (\<lambda>x. case x of JBool b \<Rightarrow> False | JArr ys \<Rightarrow> False
                                  | JObj kvs \<Rightarrow> False | _ \<Rightarrow> True) (take 4 xs)
           then Inl ''RangeError: Too many parameter values were provided''
           else Inl ''TypeError: SQLite3 can only bind numbers, strings, bigints, buffers, and null'')
      | Some x \<Rightarrow> bind_value number_text x)"

text \<open>
  \<^verbatim>\<open>saveHistory\<close>: \<open>insert_messages\<close> is the \<^verbatim>\<open>for\<close> loop, \<open>persist\<close> the body of the
  transaction, and \<^verbatim>\<open>db.transaction\<close> rolls the database back when the body throws.
  \<^verbatim>\<open>JSON.stringify\<close> is a parameter.
\<close>

fun insert_messages ::
  "(json \<Rightarrow> string) \<Rightarrow> (real \<Rightarrow> string) \<Rightarrow> int \<Rightarrow> int \<Rightarrow> json list \<Rightarrow> Database
    \<Rightarrow> (exn + unit) \<times> Database" where
  "insert_messages JSON_stringify number_text now chatId [] db = (Inr (), db)"
| "insert_messages JSON_stringify number_text now chatId (msg # msgs) db =
     (let content_text =
            (case field ''content'' msg of
               Some (JStr s) \<Rightarrow> s
             | Some JNull \<Rightarrow> JSON_stringify (JStr [])
             | None \<Rightarrow> JSON_stringify (JStr [])
             | Some v \<Rightarrow> JSON_stringify v);
          rawJson = JSON_stringify msg
      in case bind_text number_text (field ''role'' msg) of
           Inl err \<Rightarrow> (Inl err, db)
         | Inr role_text \<Rightarrow>
             insert_messages JSON_stringify number_text now chatId msgs
               (stmtInsertMsg now chatId role_text content_text rawJson db))"

definition persist ::
  "(json \<Rightarrow> string) \<Rightarrow> (real \<Rightarrow> string) \<Rightarrow> int \<Rightarrow> int \<Rightarrow> json list \<Rightarrow> Database
    \<Rightarrow> (exn + unit) \<times> Database" where
  "persist JSON_stringify number_text now chatId msgs db =
     insert_messages JSON_stringify number_text now chatId msgs (stmtDeleteMsgs chatId db)"

definition saveHistory ::
  "(json \<Rightarrow> string) \<Rightarrow> (real \<Rightarrow> string) \<Rightarrow> int \<Rightarrow> int \<Rightarrow> json list \<Rightarrow> Database
    \<Rightarrow> (exn + unit) \<times> Database" where
  "saveHistory JSON_stringify number_text now chatId msgs db =
     (case persist JSON_stringify number_text now chatId msgs db of
        (Inl err, db') \<Rightarrow> (Inl err, db)
      | (Inr u, db') \<Rightarrow> (Inr u, db'))"

text \<open>\<^verbatim>\<open>deleteHistory\<close>, used by \<^verbatim>\<open>/clear\<close>.\<close>

definition deleteHistory :: "int \<Rightarrow> Database \<Rightarrow> Database" where
  "deleteHistory chatId db = stmtDeleteMsgs chatId db"

text \<open>
  A well-formed canonical message: an object with a string for its role that
  \<^verbatim>\<open>JSON.stringify\<close> and \<^verbatim>\<open>JSON.parse\<close> take to a non-empty text and back to itself.
\<close>

definition well_formed_message ::
  "(json \<Rightarrow> string) \<Rightarrow> (string \<Rightarrow> json option) \<Rightarrow> json \<Rightarrow> bool" where
  "well_formed_message JSON_stringify JSON_parse m =
     ((case field ''role'' m of Some (JStr r) \<Rightarrow> True | _ \<Rightarrow> False) \<and>
      JSON_stringify m \<noteq> [] \<and>
      JSON_parse (JSON_stringify m) = Some m)"

section \<open>A sample configuration\<close>

text \<open>
  The values of \<^verbatim>\<open>JSON.stringify\<close> and \<^verbatim>\<open>JSON.parse\<close> at the objects and texts that the
  examples below use; every other argument is outside these two instances, which answer
  \<^verbatim>\<open>null\<close> and a syntax error for it.
\<close>

definition call_1 :: ToolCall where
  "call_1 = \<lparr> call_id = ''call_1'', call_name = ''echo'', call_arguments = ''{\"text\":\"hi\"}'' \<rparr>"

definition call_2 :: ToolCall where
  "call_2 = \<lparr> call_id = ''call_2'', call_name = ''echo'', call_arguments = ''{bad json'' \<rparr>"

definition call_9 :: ToolCall where
  "call_9 = \<lparr> call_id = ''call_9'', call_name = ''echo'', call_arguments = ''{}'' \<rparr>"

definition asks_echo_message :: json where
  "asks_echo_message =
     JObj [(''role'', JStr ''assistant''), (''content'', JNull),
           (''tool_calls'', JArr [openai_tool_call ''call_9'' ''echo'' ''{}''])]"

definition sample_stringify :: "json \<Rightarrow> string" where
  "sample_stringify j =
     (if j = JObj [(''text'', JStr ''hi'')] then ''{\"text\":\"hi\"}''
      else if j = JObj [] then ''{}''
      else if j = JStr [] then ''\"\"''
      else if j = user_message ''hi'' then ''{\"role\":\"user\",\"content\":\"hi\"}''
      else if j = asks_echo_message then
        ''{\"role\":\"assistant\",\"content\":null,\"tool_calls\":[{\"id\":\"call_9\",'' @
        ''\"type\":\"function\",\"function\":{\"name\":\"echo\",'' @
        ''\"arguments\":\"{}\"}}]}''
      else if j = tool_message call_9 ''Echo: '' then
        ''{\"role\":\"tool\",\"tool_call_id\":\"call_9\",\"content\":\"Echo: \"}''
      else ''null'')"

definition sample_parse :: "string \<Rightarrow> json option" where
  "sample_parse s =
     (if s = ''{\"text\":\"hi\"}'' then Some (JObj [(''text'', JStr ''hi'')])
      else if s = ''{}'' then Some (JObj [])
      else if s = ''\"\"'' then Some (JStr [])
      else if s = ''{\"role\":\"user\",\"content\":\"hi\"}'' then Some (user_message ''hi'')
      else if s =
        ''{\"role\":\"assistant\",\"content\":null,\"tool_calls\":[{\"id\":\"call_9\",'' @
        ''\"type\":\"function\",\"function\":{\"name\":\"echo\",'' @
        ''\"arguments\":\"{}\"}}]}'' then Some asks_echo_message
      else if s = ''{\"role\":\"tool\",\"tool_call_id\":\"call_9\",\"content\":\"Echo: \"}''
        then Some (tool_message call_9 ''Echo: '')
      else if s = ''null'' then Some JNull
      else None)"

text \<open>Backends that answer every request the same way, for the examples below.\<close>

definition openai_asks_echo ::
  "ChatCompletionCreateParams \<Rightarrow> unit \<Rightarrow> (exn + ChatCompletionMessage list) \<times> unit" where
  "openai_asks_echo params w =
     (Inr [\<lparr> message_role = ''assistant'', message_content = None,
             message_tool_calls = Some [\<lparr> tc_id = ''call_1'', tc_function_name = ''echo'',
               tc_function_arguments = ''{\"text\":\"hi\"}'' \<rparr>],
             message_rest = [(''refusal'', JNull)] \<rparr>], w)"

definition anthropic_says_hello ::
  "unit MessageCreateParams \<Rightarrow> unit \<Rightarrow> (exn + ContentBlock list) \<times> unit" where
  "anthropic_says_hello params w = (Inr [TextBlock ''hello''], w)"

definition gemini_asks_echo ::
  "unit GeminiRequest \<Rightarrow> unit \<Rightarrow> (exn + GenerateContentResponse) \<times> unit" where
  "gemini_asks_echo request w =
     (Inr \<lparr> functionCalls = Some [\<lparr> fc_name = ''echo'', fc_args = JObj [(''text'', JStr ''hi'')] \<rparr>],
            response_text = Inr [] \<rparr>, w)"

text \<open>
  An OpenAI-compatible backend that asks for two \<^verbatim>\<open>echo\<close> calls on every request, the
  second with malformed arguments, and an agent around a given provider: a cap of three
  iterations, the \<^verbatim>\<open>echo\<close> tool, a scheduler that lets the second pending call finish
  first, and an extraction backend that is down.
\<close>

definition openai_asks_twice ::
  "ChatCompletionCreateParams \<Rightarrow> unit \<Rightarrow> (exn + ChatCompletionMessage list) \<times> unit" where
  "openai_asks_twice params w =
     (Inr [\<lparr> message_role = ''assistant'', message_content = None,
             message_tool_calls = Some
               [\<lparr> tc_id = ''call_1'', tc_function_name = ''echo'',
                  tc_function_arguments = ''{\"text\":\"hi\"}'' \<rparr>,
                \<lparr> tc_id = ''call_2'', tc_function_name = ''echo'',
                  tc_function_arguments = ''{bad json'' \<rparr>],
             message_rest = [] \<rparr>], w)"

definition sample_agent :: "'w LLMProvider \<Rightarrow> 'w Agent" where
  "sample_agent provider =
     \<lparr> AGENT_MAX_ITERATIONS = 3,
       OPENAI_API_KEY_set = True,
       BASE_SYSTEM_PROMPT = (\<lambda>w. ''You are Space Claw.''),
       getAllCoreMemories = (\<lambda>w. []),
       isSupabaseConfigured = False,
       semanticSearch = (\<lambda>query limit w. (Inr [], w)),
       getActiveProvider = (\<lambda>w. (Inr provider, w)),
       registry = [echoTool (\<lambda>v. ''?'')],
       runtime_JSON_parse = sample_parse,
       completes_next = (\<lambda>w. 1),
       create_extraction = (\<lambda>prompt w. (Inl ''Error: 401'', w)),
       saveNote = (\<lambda>title body w. (None, w)),
       String_trim = (\<lambda>s. s) \<rparr>"

definition asks_twice :: "unit LLMProvider" where
  "asks_twice = makeOpenAICompatible ''openai'' ''OpenAI'' ''gpt-4o'' openai_asks_twice"

text \<open>
  An OpenAI-compatible backend that gives both of its tool calls the same id, and one
  whose world is the number of requests it has received.
\<close>

definition call_1_again :: ToolCall where
  "call_1_again = \<lparr> call_id = ''call_1'', call_name = ''echo'', call_arguments = ''{bad json'' \<rparr>"

definition openai_repeats_id ::
  "ChatCompletionCreateParams \<Rightarrow> unit \<Rightarrow> (exn + ChatCompletionMessage list) \<times> unit" where
  "openai_repeats_id params w =
     (Inr [\<lparr> message_role = ''assistant'', message_content = None,
             message_tool_calls = Some
               [\<lparr> tc_id = ''call_1'', tc_function_name = ''echo'',
                  tc_function_arguments = ''{\"text\":\"hi\"}'' \<rparr>,
                \<lparr> tc_id = ''call_1'', tc_function_name = ''echo'',
                  tc_function_arguments = ''{bad json'' \<rparr>],
             message_rest = [] \<rparr>], w)"

definition repeats_id :: "unit LLMProvider" where
  "repeats_id = makeOpenAICompatible ''openai'' ''OpenAI'' ''gpt-4o'' openai_repeats_id"

definition openai_counts ::
  "ChatCompletionCreateParams \<Rightarrow> nat \<Rightarrow> (exn + ChatCompletionMessage list) \<times> nat" where
  "openai_counts params n =
     (Inr [\<lparr> message_role = ''assistant'', message_content = None,
             message_tool_calls = Some [\<lparr> tc_id = ''call_1'', tc_function_name = ''echo'',
               tc_function_arguments = ''{\"text\":\"hi\"}'' \<rparr>],
             message_rest = [] \<rparr>], Suc n)"

definition counts_requests :: "nat LLMProvider" where
  "counts_requests = makeOpenAICompatible ''openai'' ''OpenAI'' ''gpt-4o'' openai_counts"

text \<open>
  Three more providers: a stub that answers with neither content nor tool calls, a stub
  that hands the first message of the request back as its assistant message, and the
  Anthropic adapter over a backend that says hello.
\<close>

definition stays_silent :: "unit LLMProvider" where
  "stays_silent =
     \<lparr> provider_id = ''stub'', provider_name = ''Stub'', defaultModel = ''stub-1'',
       complete = (\<lambda>messages tools w.
         (Inr \<lparr> content = None, toolCalls = None,
                assistantMessage = JObj [(''role'', JStr ''assistant''), (''content'', JNull)] \<rparr>,
          w)) \<rparr>"

definition hands_back :: "unit LLMProvider" where
  "hands_back =
     \<lparr> provider_id = ''stub'', provider_name = ''Stub'', defaultModel = ''stub-1'',
       complete = (\<lambda>messages tools w.
         (Inr \<lparr> content = Some ''ok'', toolCalls = None,
                assistantMessage = (case messages of first # _ \<Rightarrow> first | [] \<Rightarrow> JNull) \<rparr>,
          w)) \<rparr>"

definition says_hello :: "unit LLMProvider" where
  "says_hello = createAnthropicProvider sample_stringify (\<lambda>ms. Inr ()) ''claude''
     anthropic_says_hello"

text \<open>A prior history of one exchange.\<close>

definition prior_exchange :: "json list" where
  "prior_exchange =
     [user_message ''yo'', JObj [(''role'', JStr ''assistant''), (''content'', JStr ''sup'')]]"

text \<open>
  A history with a tool call and its result, and a database that holds a legacy row of
  chat 7, a row of chat 8 and one note.
\<close>

definition sample_history :: "json list" where
  "sample_history = [user_message ''hi'', asks_echo_message, tool_message call_9 ''Echo: '']"

definition sample_db :: Database where
  "sample_db =
     \<lparr> messages_table =
         [\<lparr> row_id = 1, row_chat_id = 7, row_role = ''user'', row_content = ''old'',
            row_ts = 1700000000, row_raw_json = None \<rparr>,
          \<lparr> row_id = 2, row_chat_id = 8, row_role = ''user'', row_content = ''hi'',
            row_ts = 1700000001,
            row_raw_json = Some ''{\"role\":\"user\",\"content\":\"hi\"}'' \<rparr>],
       messages_sequence = 2,
       notes_table =
         [\<lparr> note_id = 1, note_title = ''favorite color'', note_body = ''teal'',
            note_ts = 1700000002 \<rparr>],
       notes_sequence = 1,
       notes_fts = [(1, ''favorite color'', ''teal'')],
       core_memories_table = [],
       setup_state_table = [] \<rparr>"

text \<open>
  The parameter schema of a tool that takes a nested object with a required property
  called \<^verbatim>\<open>title\<close>, and the schema that reaches Gemini for it.
\<close>

definition issue_schema :: "(string \<times> json) list" where
  "issue_schema =
     [(''type'', JStr ''object''),
      (''properties'', JObj
         [(''issue'', JObj
            [(''type'', JStr ''object''),
             (''properties'', JObj
                [(''title'', JObj [(''type'', JStr ''string'')]),
                 (''body'', JObj [(''type'', JStr ''string'')])]),
             (''required'', JArr [JStr ''title''])])]),
      (''required'', JArr [JStr ''issue''])]"

definition issue_schema_sent :: "(string \<times> jsvalue) list" where
  "issue_schema_sent =
     [(''type'', VStr ''OBJECT''),
      (''properties'', VObj ObjectPrototype
         [(''issue'', VObj ObjectPrototype
            [(''type'', VStr ''object''),
             (''properties'', VObj ObjectPrototype
                [(''body'', VObj ObjectPrototype [(''type'', VStr ''string'')])]),
             (''required'', VArr [VStr ''title''])])]),
      (''required'', VArr [VStr ''issue''])]"

section \<open>Properties of the dispatcher\<close>

text \<open>
  Claim C3. \<^verbatim>\<open>dispatchTool\<close> never raises: for every registry, name, argument text and world it
  resolves with a string. For a name that no registered tool carries the string starts with
  \<^verbatim>\<open>Error: unknown tool\<close>; for a registered tool and an argument text that does not parse it
  starts with \<^verbatim>\<open>Error: could not parse arguments\<close>; when the tool's \<^verbatim>\<open>execute\<close> throws it
  starts with \<^verbatim>\<open>Error executing\<close>; otherwise it is the string the tool returned.
\<close>

theorem dispatchTool_never_raises:
  "\<exists>out. fst (dispatchTool JSON_parse tools name rawArgs w) = Inr out \<and>
     (name \<notin> set (map (\<lambda>t. function_name (spec t)) tools) \<longrightarrow>
        prefix ''Error: unknown tool'' out) \<and>
     (\<forall>tool. find (\<lambda>t. function_name (spec t) = name) tools = Some tool \<longrightarrow>
        (JSON_parse rawArgs = None \<longrightarrow> prefix ''Error: could not parse arguments'' out) \<and>
        (\<forall>args. JSON_parse rawArgs = Some args \<longrightarrow>
           (\<forall>err. fst (execute tool args w) = Inl err \<longrightarrow> prefix ''Error executing'' out) \<and>
           (\<forall>r. fst (execute tool args w) = Inr r \<longrightarrow> out = r)))"
proof (cases "find (\<lambda>t. function_name (spec t) = name) tools")
  case None
  then have "fst (dispatchTool JSON_parse tools name rawArgs w)
      = Inr (''Error: unknown tool'' @ '' \"'' @ name @ ''\"'')"
    by (simp add: dispatchTool_def)
  then show ?thesis
    using None by (intro exI conjI) (assumption, simp_all)
next
  case (Some tool)
  then have "tool \<in> set tools" and "function_name (spec tool) = name"
    by (auto simp: find_Some_iff)
  then have registered: "name \<in> set (map (\<lambda>t. function_name (spec t)) tools)"
    by force
  show ?thesis
  proof (cases "JSON_parse rawArgs")
    case None
    then have "fst (dispatchTool JSON_parse tools name rawArgs w)
        = Inr (''Error: could not parse arguments'' @ '' as JSON: '' @ rawArgs)"
      using Some by (simp add: dispatchTool_def)
    then show ?thesis
      using Some None registered by (intro exI conjI) (assumption, simp_all)
  next
    case parsed: (Some args)
    show ?thesis
    proof (cases "execute tool args w")
      case (Pair res w')
      show ?thesis
      proof (cases res)
        case (Inl err)
        then have "fst (dispatchTool JSON_parse tools name rawArgs w)
            = Inr (''Error executing'' @ '' \"'' @ name @ ''\": '' @ err)"
          using Some parsed Pair by (simp add: dispatchTool_def)
        then show ?thesis
          using Some parsed Pair Inl registered by (intro exI conjI) (assumption, simp_all)
      next
        case (Inr r)
        then have "fst (dispatchTool JSON_parse tools name rawArgs w) = Inr r"
          using Some parsed Pair by (simp add: dispatchTool_def)
        then show ?thesis
          using Some parsed Pair Inr registered by (intro exI conjI) (assumption, simp_all)
      qed
    qed
  qed
qed

theorem dispatchTool_never_raises_witness:
  "(\<exists>out. fst (dispatchTool sample_parse [echoTool (\<lambda>v. ''?'')] ''foo_bar'' ''{}'' ()) = Inr out
      \<and> prefix ''Error: unknown tool'' out) \<and>
   (\<exists>out. fst (dispatchTool sample_parse [echoTool (\<lambda>v. ''?'')] ''echo'' ''{bad json'' ()) = Inr out
      \<and> prefix ''Error: could not parse arguments'' out) \<and>
   (\<exists>out. fst (dispatchTool sample_parse [echoTool (\<lambda>v. ''?'')] ''echo'' ''null'' ()) = Inr out
      \<and> prefix ''Error executing'' out) \<and>
   fst (dispatchTool sample_parse [echoTool (\<lambda>v. ''?'')] ''echo'' ''{\"text\":\"hi\"}'' ())
      = Inr ''Echo: hi''"
proof -
  let ?tools = "[echoTool (\<lambda>v. ''?'') :: unit ToolDefinition]"
  have "\<exists>out. fst (dispatchTool sample_parse ?tools ''foo_bar'' ''{}'' ()) = Inr out
      \<and> prefix ''Error: unknown tool'' out"
    using dispatchTool_never_raises [of sample_parse ?tools "''foo_bar''" "''{}''" "()"]
    by (simp add: echoTool_def)
  moreover have "\<exists>out. fst (dispatchTool sample_parse ?tools ''echo'' ''{bad json'' ()) = Inr out
      \<and> prefix ''Error: could not parse arguments'' out"
    using dispatchTool_never_raises [of sample_parse ?tools "''echo''" "''{bad json''" "()"]
    by (simp add: echoTool_def sample_parse_def)
  moreover have "\<exists>out. fst (dispatchTool sample_parse ?tools ''echo'' ''null'' ()) = Inr out
      \<and> prefix ''Error executing'' out"
    using dispatchTool_never_raises [of sample_parse ?tools "''echo''" "''null''" "()"]
    by (simp add: echoTool_def sample_parse_def)
  moreover have "fst (dispatchTool sample_parse ?tools ''echo'' ''{\"text\":\"hi\"}'' ())
      = Inr ''Echo: hi''"
    using dispatchTool_never_raises [of sample_parse ?tools "''echo''" "''{\"text\":\"hi\"}''" "()"]
    by (simp add: echoTool_def sample_parse_def field_def)
  ultimately show ?thesis by blast
qed

section \<open>Properties of a batch of tool calls\<close>

lemma dispatchTool_resolves:
  "\<exists>out w'. dispatchTool parse ts n a w = (Inr out, w')"
  by (auto simp: dispatchTool_def split: option.splits prod.splits sum.splits)

lemma mset_without_nth:
  assumes "i < length xs"
  shows "add_mset (f (xs ! i)) (mset (map f (take i xs @ drop (Suc i) xs))) = mset (map f xs)"
proof -
  have "mset (map f xs) = mset (map f (take i xs @ xs ! i # drop (Suc i) xs))"
    using assms by (simp add: id_take_nth_drop [symmetric])
  then show ?thesis
    by simp
qed

lemma set_without_nth: "set (take i xs @ drop (Suc i) xs) \<subseteq> set xs"
  using set_take_subset [of i xs] set_drop_subset [of "Suc i" xs] by auto

lemma settle_resolves:
  "\<exists>settled w'. settle env pending w = (Inr settled, w') \<and>
     mset (map fst settled) = mset (map fst pending) \<and>
     (\<forall>p \<in> set settled. \<exists>call out. (fst p, call) \<in> set pending \<and> snd p = tool_message call out)"
proof (induction env pending w rule: settle.induct)
  case (1 env pending w)
  show ?case
  proof (cases "pending = []")
    case True
    then show ?thesis
      by (simp add: settle.simps)
  next
    case False
    define i where "i = completes_next env w mod length pending"
    define call where "call = snd (pending ! i)"
    have i: "i < length pending"
      using False by (simp add: i_def)
    obtain out w' where d: "dispatchTool (runtime_JSON_parse env) (registry env)
        (call_name call) (call_arguments call) w = (Inr out, w')"
      using dispatchTool_resolves [of "runtime_JSON_parse env" "registry env" "call_name call"
          "call_arguments call" w]
      by blast
    from "1.IH" [OF False i_def call_def d [symmetric] refl]
    obtain settled w'' where
      s: "settle env (take i pending @ drop (Suc i) pending) w' = (Inr settled, w'')"
      and m: "mset (map fst settled) = mset (map fst (take i pending @ drop (Suc i) pending))"
      and e: "\<forall>p \<in> set settled. \<exists>call out.
          (fst p, call) \<in> set (take i pending @ drop (Suc i) pending) \<and> snd p = tool_message call out"
      by blast
    have res: "settle env pending w
        = (Inr ((fst (pending ! i), tool_message call out) # settled), w'')"
      using False d s by (subst settle.simps) (simp add: Let_def i_def [symmetric] call_def [symmetric])
    have "mset (map fst ((fst (pending ! i), tool_message call out) # settled))
        = mset (map fst pending)"
      using m mset_without_nth [OF i, of fst] by simp
    moreover have "\<forall>p \<in> set ((fst (pending ! i), tool_message call out) # settled).
        \<exists>call out. (fst p, call) \<in> set pending \<and> snd p = tool_message call out"
    proof
      fix p assume "p \<in> set ((fst (pending ! i), tool_message call out) # settled)"
      then consider "p = (fst (pending ! i), tool_message call out)" | "p \<in> set settled"
        by auto
      then show "\<exists>call out. (fst p, call) \<in> set pending \<and> snd p = tool_message call out"
      proof cases
        case 1
        have "(fst (pending ! i), call) \<in> set pending"
          using i by (simp add: call_def)
        with 1 show ?thesis by auto
      next
        case 2
        with e set_without_nth [of i pending] show ?thesis by blast
      qed
    qed
    ultimately show ?thesis
      using res by blast
  qed
qed

lemma sort_key_positions:
  assumes "mset (map fst settled) = mset [0..<k]"
  shows "map fst (sort_key fst settled) = [0..<k]"
proof -
  have "sort (map fst settled) = [0..<k]"
  proof (rule properties_for_sort)
    show "mset [0..<k] = mset (map fst settled)"
      using assms by (rule sym)
    show "sorted [0..<k]"
      by simp
  qed
  moreover have "sort (map fst settled) = map fst (sort_key fst settled)"
    by (rule properties_for_sort) simp_all
  ultimately show ?thesis
    by simp
qed

lemma toolResults_by_position:
  "\<exists>toolResults w'. Promise_all_toolResults env requested w = (Inr toolResults, w') \<and>
     length toolResults = length requested \<and>
     (\<forall>i < length requested. \<exists>out. toolResults ! i = tool_message (requested ! i) out)"
proof -
  obtain settled w' where
    s: "settle env (enumerate 0 requested) w = (Inr settled, w')"
    and m: "mset (map fst settled) = mset (map fst (enumerate 0 requested))"
    and e: "\<forall>p \<in> set settled. \<exists>call out.
        (fst p, call) \<in> set (enumerate 0 requested) \<and> snd p = tool_message call out"
    using settle_resolves [of env "enumerate 0 requested" w] by blast
  let ?sorted = "sort_key fst settled"
  have pos: "map fst ?sorted = [0..<length requested]"
    using m by (intro sort_key_positions) simp
  then have len: "length ?sorted = length requested"
    by (metis length_map length_upt minus_nat.diff_0)
  have res: "Promise_all_toolResults env requested w = (Inr (map snd ?sorted), w')"
    using s by (simp add: Promise_all_toolResults_def)
  have "\<exists>out. map snd ?sorted ! i = tool_message (requested ! i) out"
    if i: "i < length requested" for i
  proof -
    have "fst (?sorted ! i) = [0..<length requested] ! i"
      using pos i len by (metis nth_map)
    then have f: "fst (?sorted ! i) = i"
      using i by simp
    have "?sorted ! i \<in> set settled"
      using i len by (metis nth_mem set_sort)
    with e obtain call out where
      c: "(fst (?sorted ! i), call) \<in> set (enumerate 0 requested)"
      and t: "snd (?sorted ! i) = tool_message call out"
      by blast
    from c f have "call = requested ! i"
      by (simp add: in_set_enumerate_eq)
    with t show ?thesis
      using i len by auto
  qed
  with res len show ?thesis
    by auto
qed

lemma field_tool_message:
  "field ''tool_call_id'' (tool_message call out) = Some (JStr (call_id call))"
  "field ''role'' (tool_message call out) = Some (JStr ''tool'')"
  "field ''content'' (tool_message call out) = Some (JStr out)"
  by (simp_all add: field_def tool_message_def)

lemma sample_batch:
  "Promise_all_toolResults (sample_agent p) [call_1, call_2] () =
     (Inr [tool_message call_1 ''Echo: hi'',
           tool_message call_2 ''Error: could not parse arguments as JSON: {bad json''], ())"
  by (simp add: Promise_all_toolResults_def settle.simps sample_agent_def dispatchTool_def
      echoTool_def sample_parse_def call_1_def call_2_def field_def Let_def)

lemma asks_twice_complete:
  "complete asks_twice ms ts () =
     (Inr \<lparr> content = None, toolCalls = Some [call_1, call_2],
            assistantMessage = JObj [(''role'', JStr ''assistant''), (''content'', JNull),
              (''tool_calls'', JArr [openai_tool_call ''call_1'' ''echo'' ''{\"text\":\"hi\"}'',
                 openai_tool_call ''call_2'' ''echo'' ''{bad json''])] \<rparr>, ())"
  by (simp add: asks_twice_def makeOpenAICompatible_def openai_asks_twice_def call_1_def
      call_2_def as_ChatCompletionMessageParam_def)

lemma repeats_id_complete:
  "complete repeats_id ms ts () =
     (Inr \<lparr> content = None, toolCalls = Some [call_1, call_1_again],
            assistantMessage = JObj [(''role'', JStr ''assistant''), (''content'', JNull),
              (''tool_calls'', JArr [openai_tool_call ''call_1'' ''echo'' ''{\"text\":\"hi\"}'',
                 openai_tool_call ''call_1'' ''echo'' ''{bad json''])] \<rparr>, ())"
  by (simp add: repeats_id_def makeOpenAICompatible_def openai_repeats_id_def call_1_def
      call_1_again_def as_ChatCompletionMessageParam_def)

lemma repeated_batch:
  "Promise_all_toolResults (sample_agent p) [call_1, call_1_again] () =
     (Inr [tool_message call_1 ''Echo: hi'',
           tool_message call_1_again ''Error: could not parse arguments as JSON: {bad json''], ())"
  by (simp add: Promise_all_toolResults_def settle.simps sample_agent_def dispatchTool_def
      echoTool_def sample_parse_def call_1_def call_1_again_def field_def Let_def)

lemma asks_twice_always: "always_requests_tools (sample_agent asks_twice)"
  by (simp add: always_requests_tools_def sample_agent_def asks_twice_complete
      requests_tools_def)

section \<open>Properties of the loop\<close>

lemma Promise_all_toolResults_resolves:
  obtains toolResults w' where "Promise_all_toolResults env requested w = (Inr toolResults, w')"
    and "length toolResults = length requested"
    and "\<forall>m \<in> set toolResults. field ''role'' m = Some (JStr ''tool'')"
proof -
  obtain toolResults w' where
    r: "Promise_all_toolResults env requested w = (Inr toolResults, w')"
    and len: "length toolResults = length requested"
    and nth: "\<forall>i < length requested. \<exists>out. toolResults ! i = tool_message (requested ! i) out"
    using toolResults_by_position [of env requested w] by blast
  have "\<forall>m \<in> set toolResults. field ''role'' m = Some (JStr ''tool'')"
  proof
    fix m assume "m \<in> set toolResults"
    then obtain i where "i < length toolResults" and "m = toolResults ! i"
      by (auto simp: in_set_conv_nth)
    with nth len show "field ''role'' m = Some (JStr ''tool'')"
      by (auto simp: field_tool_message)
  qed
  with r len show thesis
    by (rule that)
qed

text \<open>
  A proof rule for the loop: a relation \<open>P\<close> between the loop variables at the head of an
  iteration and what the loop finally returns holds of every run when it holds at each
  of the four exits and carries over an iteration that executes a batch of tools.
\<close>

lemma agent_loop_rule:
  fixes env :: "'w Agent" and userMessage :: string
  assumes cap: "\<And>i m c w. \<not> i < AGENT_MAX_ITERATIONS env
      \<Longrightarrow> P i m c w (Inr \<lparr> reply = max_iterations_reply, updatedHistory = drop 1 m \<rparr>, c, w)"
    and no_provider: "\<And>i m c w err w1. i < AGENT_MAX_ITERATIONS env
      \<Longrightarrow> getActiveProvider env w = (Inl err, w1)
      \<Longrightarrow> P i m c w (Inl err, c, w1)"
    and rejected: "\<And>i m c w provider w1 err w2. i < AGENT_MAX_ITERATIONS env
      \<Longrightarrow> getActiveProvider env w = (Inr provider, w1)
      \<Longrightarrow> complete provider m (getOpenAITools (registry env)) w1 = (Inl err, w2)
      \<Longrightarrow> P i m c w (Inl err, c @ [(m, Inl err)], w2)"
    and final: "\<And>i m c w provider w1 result w2. i < AGENT_MAX_ITERATIONS env
      \<Longrightarrow> getActiveProvider env w = (Inr provider, w1)
      \<Longrightarrow> complete provider m (getOpenAITools (registry env)) w1 = (Inr result, w2)
      \<Longrightarrow> \<not> requests_tools result
      \<Longrightarrow> P i m c w (Inr \<lparr> reply = final_text result,
              updatedHistory = drop 1 (m @ [assistantMessage result]) \<rparr>,
            c @ [(m, Inr result)],
            snd (extractAndSaveFacts env userMessage (final_text result) w2))"
    and continue: "\<And>i m c w provider w1 result w2 requested toolResults w3 R.
      i < AGENT_MAX_ITERATIONS env
      \<Longrightarrow> getActiveProvider env w = (Inr provider, w1)
      \<Longrightarrow> complete provider m (getOpenAITools (registry env)) w1 = (Inr result, w2)
      \<Longrightarrow> toolCalls result = Some requested \<Longrightarrow> requested \<noteq> []
      \<Longrightarrow> Promise_all_toolResults env requested w2 = (Inr toolResults, w3)
      \<Longrightarrow> R = agent_loop env userMessage (i + 1) (m @ [assistantMessage result] @ toolResults)
            (c @ [(m, Inr result)]) w3
      \<Longrightarrow> P (i + 1) (m @ [assistantMessage result] @ toolResults) (c @ [(m, Inr result)]) w3 R
      \<Longrightarrow> P i m c w R"
  shows "P iterations messages calls w (agent_loop env userMessage iterations messages calls w)"
  using assms
proof (induction env userMessage iterations messages calls w rule: agent_loop.induct)
  case (1 env userMessage i m c w)
  note IH = "1.IH" and rules = "1.prems"
  show ?case
  proof (cases "i < AGENT_MAX_ITERATIONS env")
    case False
    then have eq: "agent_loop env userMessage i m c w
        = (Inr \<lparr> reply = max_iterations_reply, updatedHistory = drop 1 m \<rparr>, c, w)"
      by (subst agent_loop.simps) simp
    show ?thesis
      unfolding eq by (rule rules(1) [OF False])
  next
    case True
    obtain got w1 where g: "getActiveProvider env w = (got, w1)"
      by (cases "getActiveProvider env w")
    show ?thesis
    proof (cases got)
      case (Inl err)
      with True g have eq: "agent_loop env userMessage i m c w = (Inl err, c, w1)"
        by (subst agent_loop.simps) simp
      show ?thesis
        unfolding eq using g Inl by (intro rules(2) [OF True]) simp
    next
      case (Inr provider)
      note g' = g [unfolded Inr]
      obtain res w2 where
        co: "complete provider m (getOpenAITools (registry env)) w1 = (res, w2)"
        by (cases "complete provider m (getOpenAITools (registry env)) w1")
      show ?thesis
      proof (cases res)
        case (Inl err)
        note co' = co [unfolded Inl]
        have eq: "agent_loop env userMessage i m c w = (Inl err, c @ [(m, Inl err)], w2)"
          using True g' co' by (subst agent_loop.simps) simp
        show ?thesis
          unfolding eq by (rule rules(3) [OF True g' co'])
      next
        case result: (Inr result)
        note co' = co [unfolded result]
        show ?thesis
        proof (cases "requests_tools result")
          case False
          then have t: "(case toolCalls result of None \<Rightarrow> True | Some tcs \<Rightarrow> length tcs = 0)"
            by (simp add: requests_tools_def split: option.splits)
          have eq: "agent_loop env userMessage i m c w
              = (Inr \<lparr> reply = final_text result,
                      updatedHistory = drop 1 (m @ [assistantMessage result]) \<rparr>,
                 c @ [(m, Inr result)],
                 snd (extractAndSaveFacts env userMessage (final_text result) w2))"
            using True g' co' t
            by (subst agent_loop.simps)
              (simp add: Let_def final_text_def split: prod.splits)
          show ?thesis
            unfolding eq by (rule rules(4) [OF True g' co' False])
        next
          case rt: True
          then obtain requested where
            rq: "toolCalls result = Some requested" and ne: "requested \<noteq> []"
            by (auto simp: requests_tools_def split: option.splits)
          obtain toolResults w3 where
            pa: "Promise_all_toolResults env requested w2 = (Inr toolResults, w3)"
            by (rule Promise_all_toolResults_resolves)
          have nt: "\<not> (case toolCalls result of None \<Rightarrow> True | Some tcs \<Rightarrow> length tcs = 0)"
            using rq ne by simp
          have pa': "(Inr toolResults, w3) = Promise_all_toolResults env
              (case toolCalls result of None \<Rightarrow> [] | Some tcs \<Rightarrow> tcs) w2"
            using rq pa by simp
          have step: "agent_loop env userMessage i m c w
              = agent_loop env userMessage (i + 1) (m @ [assistantMessage result] @ toolResults)
                  (c @ [(m, Inr result)]) w3"
            using True g' co' rq ne pa
            by (subst agent_loop.simps) (simp add: Let_def)
          have "P (i + 1) ((m @ [assistantMessage result]) @ toolResults) (c @ [(m, Inr result)]) w3
              (agent_loop env userMessage (i + 1) ((m @ [assistantMessage result]) @ toolResults)
                (c @ [(m, Inr result)]) w3)"
            by (rule IH [OF True g [symmetric] Inr co [symmetric] result refl refl nt pa' refl
                  rules])
          then have "P (i + 1) (m @ [assistantMessage result] @ toolResults)
              (c @ [(m, Inr result)]) w3 (agent_loop env userMessage i m c w)"
            by (simp only: step append_assoc)
          then show ?thesis
            by (rule rules(5) [OF True g' co' rq ne pa step])
        qed
      qed
    qed
  qed
qed

lemma agent_loop_calls_bounded:
  "length (fst (snd (agent_loop env u i m c w))) \<le> length c + (AGENT_MAX_ITERATIONS env - i)"
  by (rule agent_loop_rule
      [where P = "\<lambda>i m c w R. length (fst (snd R)) \<le> length c + (AGENT_MAX_ITERATIONS env - i)"])
    auto

lemma agent_loop_always_tools:
  assumes "always_requests_tools env"
  shows "i \<le> AGENT_MAX_ITERATIONS env \<longrightarrow>
    (\<exists>h c' w'. agent_loop env u i m c w
        = (Inr \<lparr> reply = max_iterations_reply, updatedHistory = h \<rparr>, c', w') \<and>
      length c' = length c + (AGENT_MAX_ITERATIONS env - i))"
proof (rule agent_loop_rule
    [where P = "\<lambda>i m c w R. i \<le> AGENT_MAX_ITERATIONS env \<longrightarrow>
      (\<exists>h c' w'. R = (Inr \<lparr> reply = max_iterations_reply, updatedHistory = h \<rparr>, c', w') \<and>
        length c' = length c + (AGENT_MAX_ITERATIONS env - i))"], goal_cases)
  case (1 i m c w)
  then show ?case by simp
next
  case (2 i m c w err w1)
  with assms show ?case
    by (metis always_requests_tools_def Inl_Inr_False prod.inject)
next
  case (3 i m c w provider w1 err w2)
  with assms show ?case
    by (metis always_requests_tools_def Inl_Inr_False prod.inject sum.inject(2))
next
  case (4 i m c w provider w1 result w2)
  with assms show ?case
    by (metis always_requests_tools_def prod.inject sum.inject(2))
next
  case (5 i m c w provider w1 result w2 requested toolResults w3 R)
  then show ?case
    by auto
qed

lemma provider_calls_eq:
  "provider_calls env history userMessage w
    = fst (snd (runAgentTurn_traced env history userMessage w))"
  by (simp add: provider_calls_def split: prod.splits)

lemma runAgentTurn_eq:
  "fst (runAgentTurn env history userMessage w)
    = fst (runAgentTurn_traced env history userMessage w)"
  by (simp add: runAgentTurn_def split: prod.splits)

lemma runAgentTurn_traced_eq:
  assumes "buildSystemPrompt env userMessage w = (systemPrompt, w0)"
  shows "runAgentTurn_traced env history userMessage w
    = agent_loop env userMessage 0
        (system_message systemPrompt # history @ [user_message userMessage]) [] w0"
  using assms by (simp add: runAgentTurn_traced_def)

lemma runAgentTurn_world:
  "snd (runAgentTurn env history userMessage w)
    = snd (snd (runAgentTurn_traced env history userMessage w))"
  by (simp add: runAgentTurn_def split: prod.splits)

subsection \<open>Counting the provider calls\<close>

text \<open>
  Nothing but a call of \<^verbatim>\<open>complete\<close> moves a counter of the provider calls, so at the end of
  the loop the counter has advanced by the number of entries that the record of the calls
  has gained, and every entry of the record is the outcome of a call of \<^verbatim>\<open>complete\<close> of an
  active provider on the recorded messages.
\<close>

lemma dispatchTool_count:
  assumes "\<forall>tool \<in> set tools. \<forall>args w. counter (snd (execute tool args w)) = counter w"
  shows "counter (snd (dispatchTool parse tools n a w)) = counter w"
proof (cases "find (\<lambda>t. function_name (spec t) = n) tools")
  case None
  then show ?thesis
    by (simp add: dispatchTool_def)
next
  case (Some tool)
  then have "tool \<in> set tools"
    by (auto simp: find_Some_iff)
  with assms have e: "counter (snd (execute tool args w)) = counter w" for args
    by blast
  show ?thesis
  proof (cases "parse a")
    case None
    with Some show ?thesis
      by (simp add: dispatchTool_def)
  next
    case args: (Some args)
    obtain res w' where x: "execute tool args w = (res, w')"
      by (cases "execute tool args w")
    with e [of args] have "counter w' = counter w"
      by simp
    with Some args x show ?thesis
      by (cases res) (simp_all add: dispatchTool_def)
  qed
qed

lemma settle_count:
  assumes "\<forall>tool \<in> set (registry env). \<forall>args w. counter (snd (execute tool args w)) = counter w"
  shows "counter (snd (settle env pending w)) = counter w"
  using assms
proof (induction env pending w rule: settle.induct)
  case (1 env pending w)
  show ?case
  proof (cases "pending = []")
    case True
    then show ?thesis
      by (simp add: settle.simps)
  next
    case False
    define i where "i = completes_next env w mod length pending"
    define call where "call = snd (pending ! i)"
    obtain res w1 where d: "dispatchTool (runtime_JSON_parse env) (registry env)
        (call_name call) (call_arguments call) w = (res, w1)"
      by (cases "dispatchTool (runtime_JSON_parse env) (registry env)
        (call_name call) (call_arguments call) w")
    from dispatchTool_count [OF "1.prems", of "runtime_JSON_parse env" "call_name call"
        "call_arguments call" w] d
    have c1: "counter w1 = counter w"
      by simp
    show ?thesis
    proof (cases res)
      case (Inl err)
      with False d c1 show ?thesis
        by (subst settle.simps) (simp add: Let_def i_def [symmetric] call_def [symmetric])
    next
      case (Inr out)
      from "1.IH" [OF False i_def call_def d [symmetric] Inr "1.prems"]
      have "counter (snd (settle env (take i pending @ drop (Suc i) pending) w1)) = counter w1" .
      with False d c1 Inr show ?thesis
        by (subst settle.simps)
          (auto simp: Let_def i_def [symmetric] call_def [symmetric] split: prod.splits sum.splits)
    qed
  qed
qed

lemma Promise_all_toolResults_count:
  assumes "\<forall>tool \<in> set (registry env). \<forall>args w. counter (snd (execute tool args w)) = counter w"
  shows "counter (snd (Promise_all_toolResults env requested w)) = counter w"
  using settle_count [OF assms, of "enumerate 0 requested" w]
  by (auto simp: Promise_all_toolResults_def split: prod.splits sum.splits)

lemma save_facts_count:
  assumes "\<forall>title body w. counter (snd (saveNote env title body w)) = counter w"
  shows "counter (snd (save_facts env items w)) = counter w"
proof (induction items arbitrary: w)
  case Nil
  show ?case by simp
next
  case (Cons item items)
  have s: "counter w' = counter w" if "saveNote env t b w = (r, w')" for t b r w'
    using assms that by (metis snd_conv)
  show ?case
    using Cons.IH
    by (auto split: json.splits option.splits prod.splits dest: s)
qed

lemma extractAndSaveFacts_count:
  assumes "\<forall>prompt w. counter (snd (create_extraction env prompt w)) = counter w"
    and "\<forall>title body w. counter (snd (saveNote env title body w)) = counter w"
  shows "counter (snd (extractAndSaveFacts env u a w)) = counter w"
proof -
  obtain res w1 where c: "create_extraction env (extractionPrompt u a) w = (res, w1)"
    by (cases "create_extraction env (extractionPrompt u a) w")
  with assms(1) have c1: "counter w1 = counter w"
    by (metis snd_conv)
  have "counter (snd (extraction_attempt env u a w)) = counter w"
    using c c1 save_facts_count [OF assms(2)]
    by (simp add: extraction_attempt_def Let_def split: sum.splits option.splits)
  then show ?thesis
    by (auto simp: extractAndSaveFacts_def split: prod.splits sum.splits)
qed

lemma buildSystemPrompt_count:
  assumes "\<forall>query k w. counter (snd (semanticSearch env query k w)) = counter w"
  shows "counter (snd (buildSystemPrompt env u w)) = counter w"
proof -
  obtain res w1 where c: "semanticSearch env u 3 w = (res, w1)"
    by (cases "semanticSearch env u 3 w")
  with assms have "counter w1 = counter w"
    by (metis snd_conv)
  with c show ?thesis
    by (simp add: buildSystemPrompt_def Let_def split: sum.splits)
qed

lemma agent_loop_count:
  assumes "counts_provider_calls counter env"
  shows "counter (snd (snd (agent_loop env u i m c w))) + length c
    = counter w + length (fst (snd (agent_loop env u i m c w)))"
proof (rule agent_loop_rule
    [where P = "\<lambda>i m c w R. counter (snd (snd R)) + length c = counter w + length (fst (snd R))"],
    goal_cases)
  case (1 i m c w)
  show ?case by simp
next
  case (2 i m c w err w1)
  with assms have "counter w1 = counter w"
    unfolding counts_provider_calls_def by (metis snd_conv)
  then show ?case by simp
next
  case (3 i m c w provider w1 err w2)
  with assms have "counter w1 = counter w" and "counter w2 = Suc (counter w1)"
    unfolding counts_provider_calls_def by (metis snd_conv)+
  then show ?case by simp
next
  case (4 i m c w provider w1 result w2)
  with assms have "counter w1 = counter w" and "counter w2 = Suc (counter w1)"
    unfolding counts_provider_calls_def by (metis snd_conv)+
  moreover have "counter (snd (extractAndSaveFacts env u (final_text result) w2)) = counter w2"
    using assms unfolding counts_provider_calls_def
    by (intro extractAndSaveFacts_count) blast+
  ultimately show ?case by simp
next
  case (5 i m c w provider w1 result w2 requested toolResults w3 R)
  with assms have "counter w1 = counter w" and "counter w2 = Suc (counter w1)"
    unfolding counts_provider_calls_def by (metis snd_conv)+
  moreover have "counter (snd (Promise_all_toolResults env requested w2)) = counter w2"
    using assms unfolding counts_provider_calls_def
    by (intro Promise_all_toolResults_count) blast
  ultimately show ?case
    using 5 by simp
qed

lemma agent_loop_answered:
  "\<forall>e \<in> set (fst (snd (agent_loop env u i m c w))). e \<in> set c \<or>
     (\<exists>w0 p w1. getActiveProvider env w0 = (Inr p, w1) \<and>
        snd e = fst (complete p (fst e) (getOpenAITools (registry env)) w1))"
proof (rule agent_loop_rule
    [where P = "\<lambda>i m c w R. \<forall>e \<in> set (fst (snd R)). e \<in> set c \<or>
     (\<exists>w0 p w1. getActiveProvider env w0 = (Inr p, w1) \<and>
        snd e = fst (complete p (fst e) (getOpenAITools (registry env)) w1))"],
    goal_cases)
  case (1 i m c w)
  show ?case by simp
next
  case (2 i m c w err w1)
  show ?case by simp
next
  case (3 i m c w provider w1 err w2)
  then show ?case by force
next
  case (4 i m c w provider w1 result w2)
  then show ?case by force
next
  case (5 i m c w provider w1 result w2 requested toolResults w3 R)
  show ?case
  proof
    fix e assume "e \<in> set (fst (snd R))"
    with 5(8) consider "e \<in> set c" | "e = (m, Inr result)"
      | "\<exists>w0 p w1. getActiveProvider env w0 = (Inr p, w1) \<and>
          snd e = fst (complete p (fst e) (getOpenAITools (registry env)) w1)"
      by auto
    then show "e \<in> set c \<or>
       (\<exists>w0 p w1. getActiveProvider env w0 = (Inr p, w1) \<and>
          snd e = fst (complete p (fst e) (getOpenAITools (registry env)) w1))"
    proof cases
      case 1
      then show ?thesis by simp
    next
      case 2
      have "getActiveProvider env w = (Inr provider, w1) \<and>
          snd e = fst (complete provider (fst e) (getOpenAITools (registry env)) w1)"
        using 5(2,3) 2 by simp
      then show ?thesis by blast
    next
      case 3
      then show ?thesis by simp
    qed
  qed
qed

text \<open>
  Claim C2. The provider is called at most \<^verbatim>\<open>AGENT_MAX_ITERATIONS\<close> times in a turn: a
  counter of the provider calls advances by at most the cap, and by exactly the cap when
  the provider always asks for tools (three calls for a cap of three, never a fourth);
  the turn then ends with the fixed warning. The counter advances by the length of the
  record of the calls, every entry of which is the outcome of a call of \<^verbatim>\<open>complete\<close>, so
  the same bounds hold of the record.
\<close>

theorem provider_calls_bounded:
  "(counts_provider_calls counter env \<longrightarrow>
      counter (snd (runAgentTurn env history userMessage w))
        \<le> counter w + AGENT_MAX_ITERATIONS env \<and>
      (always_requests_tools env \<longrightarrow>
         counter (snd (runAgentTurn env history userMessage w))
           = counter w + AGENT_MAX_ITERATIONS env) \<and>
      counter (snd (runAgentTurn env history userMessage w))
        = counter w + length (provider_calls env history userMessage w)) \<and>
   (always_requests_tools env \<longrightarrow>
      length (provider_calls env history userMessage w) = AGENT_MAX_ITERATIONS env \<and>
      (\<exists>r w'. runAgentTurn env history userMessage w = (Inr r, w') \<and>
         reply r = max_iterations_reply)) \<and>
   length (provider_calls env history userMessage w) \<le> AGENT_MAX_ITERATIONS env \<and>
   (\<forall>c \<in> set (provider_calls env history userMessage w).
      \<exists>w0 p w1. getActiveProvider env w0 = (Inr p, w1) \<and>
        snd c = fst (complete p (fst c) (getOpenAITools (registry env)) w1))"
proof (cases "buildSystemPrompt env userMessage w")
  case (Pair systemPrompt w0)
  let ?m = "[system_message systemPrompt] @ history @ [user_message userMessage]"
  have traced: "runAgentTurn_traced env history userMessage w
      = agent_loop env userMessage 0 ?m [] w0"
    using runAgentTurn_traced_eq [OF Pair] by simp
  have "length (fst (snd (agent_loop env userMessage 0 ?m [] w0))) \<le> AGENT_MAX_ITERATIONS env"
    using agent_loop_calls_bounded [of env userMessage 0 ?m "[]" w0] by simp
  then have bound: "length (provider_calls env history userMessage w) \<le> AGENT_MAX_ITERATIONS env"
    by (simp add: provider_calls_eq traced)
  have answered: "\<forall>c \<in> set (provider_calls env history userMessage w).
      \<exists>w0 p w1. getActiveProvider env w0 = (Inr p, w1) \<and>
        snd c = fst (complete p (fst c) (getOpenAITools (registry env)) w1)"
    using agent_loop_answered [of env userMessage 0 ?m "[]" w0]
    by (simp add: provider_calls_eq traced)
  have always: "length (provider_calls env history userMessage w) = AGENT_MAX_ITERATIONS env \<and>
      (\<exists>r w'. runAgentTurn env history userMessage w = (Inr r, w') \<and>
         reply r = max_iterations_reply)"
    if "always_requests_tools env"
    using agent_loop_always_tools [OF that, of 0 userMessage ?m "[]" w0]
    by (auto simp: provider_calls_def runAgentTurn_def runAgentTurn_traced_def Pair)
  have counted: "counter (snd (runAgentTurn env history userMessage w))
        = counter w + length (provider_calls env history userMessage w)"
    if c: "counts_provider_calls counter env"
  proof -
    from c have "counter (snd (buildSystemPrompt env userMessage w)) = counter w"
      unfolding counts_provider_calls_def by (intro buildSystemPrompt_count) blast
    with Pair have "counter w0 = counter w"
      by simp
    with agent_loop_count [OF c, of userMessage 0 ?m "[]" w0] show ?thesis
      by (simp add: runAgentTurn_world provider_calls_eq traced)
  qed
  have "counter (snd (runAgentTurn env history userMessage w))
        \<le> counter w + AGENT_MAX_ITERATIONS env \<and>
      (always_requests_tools env \<longrightarrow>
         counter (snd (runAgentTurn env history userMessage w))
           = counter w + AGENT_MAX_ITERATIONS env) \<and>
      counter (snd (runAgentTurn env history userMessage w))
        = counter w + length (provider_calls env history userMessage w)"
    if "counts_provider_calls counter env"
    using counted [OF that] bound always by simp
  with bound answered always show ?thesis
    by blast
qed

theorem provider_calls_bounded_witness:
  "AGENT_MAX_ITERATIONS (sample_agent counts_requests) = 3 \<and>
   snd (runAgentTurn (sample_agent counts_requests) [] ''hi'' 0) = 3 \<and>
   length (provider_calls (sample_agent counts_requests) [] ''hi'' 0) = 3 \<and>
   reply (projr (fst (runAgentTurn (sample_agent counts_requests) [] ''hi'' 0)))
     = max_iterations_reply"
proof -
  let ?env = "sample_agent counts_requests"
  have c: "complete counts_requests ms ts n =
     (Inr \<lparr> content = None, toolCalls = Some [call_1],
            assistantMessage = JObj [(''role'', JStr ''assistant''), (''content'', JNull),
              (''tool_calls'', JArr [openai_tool_call ''call_1'' ''echo'' ''{\"text\":\"hi\"}''])] \<rparr>,
      Suc n)" for ms ts n
    by (simp add: counts_requests_def makeOpenAICompatible_def openai_counts_def call_1_def
        as_ChatCompletionMessageParam_def)
  have "counts_provider_calls (\<lambda>n. n) ?env"
    by (simp add: counts_provider_calls_def sample_agent_def c echoTool_def split: json.splits)
  moreover have "always_requests_tools ?env"
    by (simp add: always_requests_tools_def sample_agent_def c requests_tools_def)
  ultimately show ?thesis
    using provider_calls_bounded [of "\<lambda>n. n" ?env "[]" "''hi''" 0]
    by (auto simp: sample_agent_def)
qed

lemma agent_loop_ending:
  "i \<le> AGENT_MAX_ITERATIONS env \<and> list_all asked_for_tools c \<and> length c = i \<longrightarrow>
     (\<forall>r. fst (agent_loop env u i m c w) = Inr r \<longrightarrow>
        ended_with_reply (fst (snd (agent_loop env u i m c w))) r
          \<noteq> ended_at_cap (AGENT_MAX_ITERATIONS env) (fst (snd (agent_loop env u i m c w))) r)"
proof (rule agent_loop_rule
    [where P = "\<lambda>i m c w R. i \<le> AGENT_MAX_ITERATIONS env \<and> list_all asked_for_tools c \<and> length c = i \<longrightarrow>
     (\<forall>r. fst R = Inr r \<longrightarrow>
        ended_with_reply (fst (snd R)) r \<noteq> ended_at_cap (AGENT_MAX_ITERATIONS env) (fst (snd R)) r)"],
    goal_cases)
  case (1 i m c w)
  show ?case
  proof (intro impI allI, elim conjE)
    fix r
    assume "i \<le> AGENT_MAX_ITERATIONS env" and all: "list_all asked_for_tools c"
      and len: "length c = i"
      and "fst (Inr \<lparr>reply = max_iterations_reply, updatedHistory = drop 1 m\<rparr>, c, w) = Inr r"
    with 1 have cap: "ended_at_cap (AGENT_MAX_ITERATIONS env) c r"
      by (auto simp: ended_at_cap_def)
    have "\<not> ended_with_reply c r"
      using all by (auto simp: ended_with_reply_def asked_for_tools_def list_all_iff
          split: sum.splits dest!: last_in_set)
    with cap show "ended_with_reply (fst (snd (Inr \<lparr>reply = max_iterations_reply,
          updatedHistory = drop 1 m\<rparr>, c, w))) r
        \<noteq> ended_at_cap (AGENT_MAX_ITERATIONS env) (fst (snd (Inr \<lparr>reply = max_iterations_reply,
          updatedHistory = drop 1 m\<rparr>, c, w))) r"
      by simp
  qed
next
  case (2 i m c w err w1)
  show ?case by simp
next
  case (3 i m c w provider w1 err w2)
  show ?case by simp
next
  case (4 i m c w provider w1 result w2)
  then show ?case
    by (auto simp: ended_with_reply_def ended_at_cap_def asked_for_tools_def)
next
  case (5 i m c w provider w1 result w2 requested toolResults w3 R)
  then show ?case
    by (auto simp: asked_for_tools_def requests_tools_def)
qed

lemma says_hello_complete:
  "complete says_hello ms ts () =
     (Inr \<lparr> content = Some ''hello'', toolCalls = None,
            assistantMessage = JObj [(''role'', JStr ''assistant''), (''content'', JStr ''hello'')] \<rparr>,
      ())"
  by (simp add: says_hello_def createAnthropicProvider_def anthropic_says_hello_def
      joined_text_def List.map_filter_simps Let_def)

lemma sample_extraction:
  "extractAndSaveFacts (sample_agent p) u a () = (Inr (), ())"
  by (simp add: extractAndSaveFacts_def extraction_attempt_def sample_agent_def)

lemma sample_prompt:
  "buildSystemPrompt (sample_agent p) u () = (''You are Space Claw.'', ())"
  by (simp add: buildSystemPrompt_def sample_agent_def Let_def)

lemma says_hello_turn:
  "runAgentTurn_traced (sample_agent says_hello) history ''hi'' () =
     (Inr \<lparr> reply = ''hello'',
            updatedHistory = history @ [user_message ''hi'',
              JObj [(''role'', JStr ''assistant''), (''content'', JStr ''hello'')]] \<rparr>,
      [(system_message ''You are Space Claw.'' # history @ [user_message ''hi''],
        Inr \<lparr> content = Some ''hello'', toolCalls = None,
              assistantMessage =
                JObj [(''role'', JStr ''assistant''), (''content'', JStr ''hello'')] \<rparr>)],
      ())"
proof -
  have env: "AGENT_MAX_ITERATIONS (sample_agent says_hello) = 3"
    "getActiveProvider (sample_agent says_hello) () = (Inr says_hello, ())"
    by (simp_all add: sample_agent_def)
  show ?thesis
    by (simp add: runAgentTurn_traced_def sample_prompt agent_loop.simps [of _ _ 0] env
        says_hello_complete sample_extraction)
qed

lemma stays_silent_turn:
  "runAgentTurn_traced (sample_agent stays_silent) [] ''hi'' () =
     (Inr \<lparr> reply = ''(no response)'',
            updatedHistory = [user_message ''hi'',
              JObj [(''role'', JStr ''assistant''), (''content'', JNull)]] \<rparr>,
      [([system_message ''You are Space Claw.'', user_message ''hi''],
        Inr \<lparr> content = None, toolCalls = None,
              assistantMessage = JObj [(''role'', JStr ''assistant''), (''content'', JNull)] \<rparr>)],
      ())"
proof -
  have env: "AGENT_MAX_ITERATIONS (sample_agent stays_silent) = 3"
    "getActiveProvider (sample_agent stays_silent) () = (Inr stays_silent, ())"
    by (simp_all add: sample_agent_def)
  have c: "complete stays_silent ms ts () =
     (Inr \<lparr> content = None, toolCalls = None,
            assistantMessage = JObj [(''role'', JStr ''assistant''), (''content'', JNull)] \<rparr>, ())"
    for ms ts
    by (simp add: stays_silent_def)
  show ?thesis
    by (simp add: runAgentTurn_traced_def sample_prompt agent_loop.simps [of _ _ 0] env
        c sample_extraction)
qed

text \<open>
  Claim C1, as amended. Whenever \<^verbatim>\<open>runAgentTurn\<close> returns, exactly one of two things holds:
  the last provider response asked for no tools and the reply is its text (its content,
  or the placeholder \<^verbatim>\<open>(no response)\<close> when the content is null); or the reply is the fixed
  warning, the provider was called \<^verbatim>\<open>AGENT_MAX_ITERATIONS\<close> times and every response asked
  for tools. A response that ends the turn never carries a non-empty list of tool calls.
\<close>

theorem runAgentTurn_ending:
  assumes "runAgentTurn env history userMessage w = (Inr r, w')"
  shows "ended_with_reply (provider_calls env history userMessage w) r
    \<noteq> ended_at_cap (AGENT_MAX_ITERATIONS env) (provider_calls env history userMessage w) r"
proof (cases "buildSystemPrompt env userMessage w")
  case (Pair systemPrompt w0)
  from assms have "fst (runAgentTurn_traced env history userMessage w) = Inr r"
    by (simp add: runAgentTurn_eq [symmetric])
  then show ?thesis
    using agent_loop_ending [of 0 env "[]" userMessage
        "system_message systemPrompt # history @ [user_message userMessage]" w0]
    by (simp add: provider_calls_eq runAgentTurn_traced_eq [OF Pair])
qed

theorem runAgentTurn_ending_witness:
  "fst (runAgentTurn (sample_agent says_hello) [] ''hi'' ()) =
     Inr \<lparr> reply = ''hello'',
           updatedHistory = [user_message ''hi'',
             JObj [(''role'', JStr ''assistant''), (''content'', JStr ''hello'')]] \<rparr> \<and>
   ended_with_reply (provider_calls (sample_agent says_hello) [] ''hi'' ())
     (projr (fst (runAgentTurn (sample_agent says_hello) [] ''hi'' ()))) \<and>
   \<not> ended_at_cap 3 (provider_calls (sample_agent says_hello) [] ''hi'' ())
     (projr (fst (runAgentTurn (sample_agent says_hello) [] ''hi'' ())))"
proof -
  let ?r = "\<lparr> reply = ''hello'',
           updatedHistory = [user_message ''hi'',
             JObj [(''role'', JStr ''assistant''), (''content'', JStr ''hello'')]] \<rparr>"
  have run: "runAgentTurn (sample_agent says_hello) [] ''hi'' () = (Inr ?r, ())"
    by (simp add: runAgentTurn_def says_hello_turn)
  have "ended_with_reply (provider_calls (sample_agent says_hello) [] ''hi'' ()) ?r"
    by (simp add: provider_calls_eq says_hello_turn ended_with_reply_def requests_tools_def
        final_text_def)
  with runAgentTurn_ending [OF run] run show ?thesis
    by (simp add: sample_agent_def)
qed

text \<open>
  The claim as stated fails for a provider that answers with null content and no tool
  calls: the reply is the placeholder, which is neither the content of any response of
  the provider nor the warning.
\<close>

theorem runAgentTurn_reply_counterexample:
  "reply (projr (fst (runAgentTurn (sample_agent stays_silent) [] ''hi'' ()))) = ''(no response)'' \<and>
   map (\<lambda>c. content (projr (snd c))) (provider_calls (sample_agent stays_silent) [] ''hi'' ())
     = [None] \<and>
   ''(no response)'' \<noteq> max_iterations_reply"
  by (simp add: runAgentTurn_eq provider_calls_eq stays_silent_turn max_iterations_reply_def
      warning_sign_def)

lemma assistant_messages_append [simp]:
  "assistant_messages (xs @ ys) = assistant_messages xs @ assistant_messages ys"
  by (simp add: assistant_messages_def)

lemma assistant_messages_single [simp]:
  "assistant_messages [(m, Inr resp)] = [assistantMessage resp]"
  by (simp add: assistant_messages_def)

subsection \<open>The tool results in the message list\<close>

text \<open>
  The message list is a variable of the loop. What it holds shows in the updated history
  that the turn returns and in the messages of the next request to the provider.
\<close>

lemma agent_loop_log_extends:
  "prefix c (fst (snd (agent_loop env u i m c w)))"
  by (rule agent_loop_rule [where P = "\<lambda>i m c w R. prefix c (fst (snd R))"])
    (auto dest: append_prefixD)

lemma agent_loop_next_call:
  assumes "i < AGENT_MAX_ITERATIONS env"
    and "getActiveProvider env w = (Inr p, w1)"
  shows "prefix (c @ [(m, fst (complete p m (getOpenAITools (registry env)) w1))])
    (fst (snd (agent_loop env u i m c w)))"
proof -
  obtain res w2 where co: "complete p m (getOpenAITools (registry env)) w1 = (res, w2)"
    by (cases "complete p m (getOpenAITools (registry env)) w1")
  show ?thesis
  proof (cases res)
    case (Inl err)
    with assms co show ?thesis
      by (subst agent_loop.simps) simp
  next
    case (Inr result)
    show ?thesis
    proof (cases "requests_tools result")
      case False
      then have "(case toolCalls result of None \<Rightarrow> True | Some tcs \<Rightarrow> length tcs = 0)"
        by (simp add: requests_tools_def split: option.splits)
      with assms co Inr show ?thesis
        by (subst agent_loop.simps) (simp add: Let_def split: prod.splits)
    next
      case True
      then obtain requested where
        rq: "toolCalls result = Some requested" and ne: "requested \<noteq> []"
        by (auto simp: requests_tools_def split: option.splits)
      obtain toolResults w3 where
        pa: "Promise_all_toolResults env requested w2 = (Inr toolResults, w3)"
        by (rule Promise_all_toolResults_resolves)
      have "agent_loop env u i m c w
          = agent_loop env u (i + 1) (m @ [assistantMessage result] @ toolResults)
              (c @ [(m, Inr result)]) w3"
        using assms co Inr rq ne pa
        by (subst agent_loop.simps) (simp add: Let_def)
      with agent_loop_log_extends [of "c @ [(m, Inr result)]" env u "i + 1"
          "m @ [assistantMessage result] @ toolResults" w3] co Inr
      show ?thesis
        by simp
    qed
  qed
qed

lemma agent_loop_keeps_messages:
  "\<forall>r. fst (agent_loop env u i m c w) = Inr r \<longrightarrow> prefix (drop 1 m) (updatedHistory r)"
proof (rule agent_loop_rule
    [where P = "\<lambda>i m c w R. \<forall>r. fst R = Inr r \<longrightarrow> prefix (drop 1 m) (updatedHistory r)"],
    goal_cases)
  case (5 i m c w provider w1 result w2 requested toolResults w3 R)
  have "prefix (drop 1 m) (drop 1 (m @ [assistantMessage result] @ toolResults))"
    by (cases m) simp_all
  with 5(8) show ?case
    by (meson prefix_order.trans)
qed (auto simp: prefix_def)

text \<open>
  Claim C4, as amended. In a loop iteration in which the provider's response carries the
  tool calls \<open>requested\<close> (k of them, k > 0), the batch resolves with exactly k tool-result
  messages in request order: the j-th is the tool message of the j-th request, with role
  \<^verbatim>\<open>tool\<close> and that request's id as its \<^verbatim>\<open>tool_call_id\<close>. The ids are those of the requests
  and so are unique exactly when the requests' ids are. The loop goes on from the
  messages extended by the assistant message and these k messages: they follow the
  messages so far in the updated history of every turn that returns, and they are the
  messages of the next request to the provider. This holds for every scheduler
  \<open>completes_next env\<close>, that is, for every order of completion.
\<close>

theorem tool_results_in_request_order:
  assumes "iterations < AGENT_MAX_ITERATIONS env"
    and "getActiveProvider env w = (Inr provider, w1)"
    and "complete provider messages (getOpenAITools (registry env)) w1 = (Inr result, w2)"
    and "toolCalls result = Some requested"
    and "requested \<noteq> []"
  shows "\<exists>toolResults w3.
      Promise_all_toolResults env requested w2 = (Inr toolResults, w3) \<and>
      length toolResults = length requested \<and>
      (\<forall>j < length requested. \<exists>out. toolResults ! j = tool_message (requested ! j) out) \<and>
      map (field ''tool_call_id'') toolResults = map (\<lambda>c. Some (JStr (call_id c))) requested \<and>
      (\<forall>m \<in> set toolResults. field ''role'' m = Some (JStr ''tool'')) \<and>
      (distinct (map (field ''tool_call_id'') toolResults) \<longleftrightarrow>
         distinct (map call_id requested)) \<and>
      agent_loop env userMessage iterations messages calls w =
        agent_loop env userMessage (iterations + 1)
          (messages @ [assistantMessage result] @ toolResults)
          (calls @ [(messages, Inr result)]) w3 \<and>
      (\<forall>r. fst (agent_loop env userMessage iterations messages calls w) = Inr r \<longrightarrow>
         prefix (drop 1 (messages @ [assistantMessage result] @ toolResults))
           (updatedHistory r)) \<and>
      (\<forall>following w4. iterations + 1 < AGENT_MAX_ITERATIONS env \<and>
         getActiveProvider env w3 = (Inr following, w4) \<longrightarrow>
         fst (snd (agent_loop env userMessage iterations messages calls w)) ! (length calls + 1)
           = (messages @ [assistantMessage result] @ toolResults,
              fst (complete following (messages @ [assistantMessage result] @ toolResults)
                (getOpenAITools (registry env)) w4)))"
proof -
  obtain toolResults w3 where
    r: "Promise_all_toolResults env requested w2 = (Inr toolResults, w3)"
    and len: "length toolResults = length requested"
    and nth: "\<forall>i < length requested. \<exists>out. toolResults ! i = tool_message (requested ! i) out"
    using toolResults_by_position [of env requested w2] by blast
  let ?m = "messages @ [assistantMessage result] @ toolResults"
  let ?c = "calls @ [(messages, Inr result)]"
  have step: "agent_loop env userMessage iterations messages calls w =
      agent_loop env userMessage (iterations + 1) ?m ?c w3"
    using assms r by (subst agent_loop.simps) (simp add: Let_def)
  have ids: "map (field ''tool_call_id'') toolResults = map (\<lambda>c. Some (JStr (call_id c))) requested"
  proof (rule nth_equalityI)
    show "length (map (field ''tool_call_id'') toolResults)
        = length (map (\<lambda>c. Some (JStr (call_id c))) requested)"
      using len by simp
    fix i assume "i < length (map (field ''tool_call_id'') toolResults)"
    then have i: "i < length requested"
      using len by simp
    with nth obtain out where "toolResults ! i = tool_message (requested ! i) out"
      by blast
    then show "map (field ''tool_call_id'') toolResults ! i
        = map (\<lambda>c. Some (JStr (call_id c))) requested ! i"
      using i len by (simp add: field_tool_message)
  qed
  have roles: "\<forall>m \<in> set toolResults. field ''role'' m = Some (JStr ''tool'')"
  proof
    fix m assume "m \<in> set toolResults"
    then obtain i where "i < length toolResults" and "m = toolResults ! i"
      by (auto simp: in_set_conv_nth)
    with nth len show "field ''role'' m = Some (JStr ''tool'')"
      by (auto simp: field_tool_message)
  qed
  have "inj_on (\<lambda>i. Some (JStr i)) (set (map call_id requested))"
    by (simp add: inj_on_def)
  then have "distinct (map (\<lambda>i. Some (JStr i)) (map call_id requested))
      \<longleftrightarrow> distinct (map call_id requested)"
    by (simp only: distinct_map simp_thms)
  then have unique: "distinct (map (field ''tool_call_id'') toolResults)
      \<longleftrightarrow> distinct (map call_id requested)"
    by (simp add: ids comp_def)
  have history: "prefix (drop 1 ?m) (updatedHistory r)"
    if "fst (agent_loop env userMessage iterations messages calls w) = Inr r" for r
    using that agent_loop_keeps_messages [of env userMessage "iterations + 1" ?m ?c w3]
    unfolding step by blast
  have request: "fst (snd (agent_loop env userMessage iterations messages calls w))
        ! (length calls + 1)
      = (?m, fst (complete following ?m (getOpenAITools (registry env)) w4))"
    if "iterations + 1 < AGENT_MAX_ITERATIONS env"
      and "getActiveProvider env w3 = (Inr following, w4)" for following w4
  proof -
    let ?e = "(?m, fst (complete following ?m (getOpenAITools (registry env)) w4))"
    from agent_loop_next_call [OF that, of ?c ?m userMessage]
    obtain more where "fst (snd (agent_loop env userMessage iterations messages calls w))
        = (?c @ [?e]) @ more"
      unfolding step prefix_def by blast
    then show ?thesis
      by (simp add: nth_append)
  qed
  from r len nth ids roles unique step history request show ?thesis
    by blast
qed

theorem tool_results_in_request_order_witness:
  "prefix
     [user_message ''hi'',
      JObj [(''role'', JStr ''assistant''), (''content'', JNull),
        (''tool_calls'', JArr [openai_tool_call ''call_1'' ''echo'' ''{\"text\":\"hi\"}'',
           openai_tool_call ''call_2'' ''echo'' ''{bad json''])],
      JObj [(''role'', JStr ''tool''), (''tool_call_id'', JStr ''call_1''),
        (''content'', JStr ''Echo: hi'')],
      JObj [(''role'', JStr ''tool''), (''tool_call_id'', JStr ''call_2''),
        (''content'', JStr ''Error: could not parse arguments as JSON: {bad json'')]]
     (updatedHistory (projr (fst (runAgentTurn (sample_agent asks_twice) [] ''hi'' ()))))"
proof -
  let ?env = "sample_agent asks_twice"
  let ?m = "[system_message ''You are Space Claw.'', user_message ''hi'']"
  let ?a = "JObj [(''role'', JStr ''assistant''), (''content'', JNull),
        (''tool_calls'', JArr [openai_tool_call ''call_1'' ''echo'' ''{\"text\":\"hi\"}'',
           openai_tool_call ''call_2'' ''echo'' ''{bad json''])]"
  let ?result = "\<lparr> content = None, toolCalls = Some [call_1, call_2], assistantMessage = ?a \<rparr>"
  have h1: "0 < AGENT_MAX_ITERATIONS ?env"
    by (simp add: sample_agent_def)
  have h2: "getActiveProvider ?env () = (Inr asks_twice, ())"
    by (simp add: sample_agent_def)
  have h3: "complete asks_twice ?m (getOpenAITools (registry ?env)) () = (Inr ?result, ())"
    by (simp add: asks_twice_complete)
  have h4: "toolCalls ?result = Some [call_1, call_2]"
    by simp
  have h5: "[call_1, call_2] \<noteq> []"
    by simp
  have turn: "runAgentTurn_traced ?env [] ''hi'' () = agent_loop ?env ''hi'' 0 ?m [] ()"
    by (simp add: runAgentTurn_traced_def sample_prompt)
  obtain r where ret: "fst (agent_loop ?env ''hi'' 0 ?m [] ()) = Inr r"
    using agent_loop_always_tools [OF asks_twice_always, of 0 "''hi''" ?m "[]" "()"]
    by auto
  from tool_results_in_request_order [OF h1 h2 h3 h4 h5, of "''hi''" "[]"] ret
  have "prefix (drop 1 (?m @ [?a] @
      [tool_message call_1 ''Echo: hi'',
       tool_message call_2 ''Error: could not parse arguments as JSON: {bad json''])) (updatedHistory r)"
    by (auto simp: sample_batch)
  then show ?thesis
    using ret
    by (simp add: runAgentTurn_eq turn tool_message_def call_1_def call_2_def)
qed

text \<open>
  The claim as stated fails where the backend gives two calls of one response the same
  id: the adapter and the loop pass the ids through, and the two tool-result messages
  carry the same \<^verbatim>\<open>tool_call_id\<close>.
\<close>

lemma repeats_id_turn:
  "take 2 (drop 2 (updatedHistory (projr (fst (runAgentTurn (sample_agent repeats_id) [] ''hi'' ())))))
     = [tool_message call_1 ''Echo: hi'',
        tool_message call_1_again ''Error: could not parse arguments as JSON: {bad json'']"
proof -
  have env: "AGENT_MAX_ITERATIONS (sample_agent repeats_id) = 3"
    "getActiveProvider (sample_agent repeats_id) () = (Inr repeats_id, ())"
    by (simp_all add: sample_agent_def)
  show ?thesis
    by (simp add: runAgentTurn_eq runAgentTurn_traced_def sample_prompt agent_loop.simps env
        repeats_id_complete repeated_batch Let_def)
qed

theorem tool_call_ids_repeat_counterexample:
  "map call_id (the (toolCalls (projr (fst (complete repeats_id
       [system_message ''You are Space Claw.'', user_message ''hi''] [] ())))))
     = [''call_1'', ''call_1''] \<and>
   take 2 (drop 2 (updatedHistory (projr (fst (runAgentTurn (sample_agent repeats_id) [] ''hi'' ())))))
     = [JObj [(''role'', JStr ''tool''), (''tool_call_id'', JStr ''call_1''),
          (''content'', JStr ''Echo: hi'')],
        JObj [(''role'', JStr ''tool''), (''tool_call_id'', JStr ''call_1''),
          (''content'', JStr ''Error: could not parse arguments as JSON: {bad json'')]]"
  by (simp add: repeats_id_turn repeats_id_complete tool_message_def call_1_def call_1_again_def)

subsection \<open>The updated history\<close>

lemma agent_loop_appends:
  "\<forall>r. fst (agent_loop env u i m c w) = Inr r \<longrightarrow>
     (\<exists>appended more. updatedHistory r = drop 1 (m @ appended) \<and>
        fst (snd (agent_loop env u i m c w)) = c @ more \<and>
        (\<forall>x \<in> set appended. field ''role'' x = Some (JStr ''tool'') \<or>
           x \<in> set (assistant_messages more)) \<and>
        set (assistant_messages more) \<subseteq> set appended)"
proof (rule agent_loop_rule
    [where P = "\<lambda>i m c w R. \<forall>r. fst R = Inr r \<longrightarrow>
     (\<exists>appended more. updatedHistory r = drop 1 (m @ appended) \<and>
        fst (snd R) = c @ more \<and>
        (\<forall>x \<in> set appended. field ''role'' x = Some (JStr ''tool'') \<or>
           x \<in> set (assistant_messages more)) \<and>
        set (assistant_messages more) \<subseteq> set appended)"],
    goal_cases)
  case (1 i m c w)
  show ?case
    by (intro allI impI exI [of _ "[]"]) (auto simp: assistant_messages_def)
next
  case (2 i m c w err w1)
  show ?case by simp
next
  case (3 i m c w provider w1 err w2)
  show ?case by simp
next
  case (4 i m c w provider w1 result w2)
  show ?case
    by (intro allI impI exI [of _ "[assistantMessage result]"] exI [of _ "[(m, Inr result)]"])
      auto
next
  case (5 i m c w provider w1 result w2 requested toolResults w3 R)
  obtain toolResults' w3' where
    "Promise_all_toolResults env requested w2 = (Inr toolResults', w3')"
    and "\<forall>x \<in> set toolResults'. field ''role'' x = Some (JStr ''tool'')"
    by (rule Promise_all_toolResults_resolves)
  with 5 have roles: "\<forall>x \<in> set toolResults. field ''role'' x = Some (JStr ''tool'')"
    by simp
  show ?case
  proof (intro allI impI)
    fix r assume "fst R = Inr r"
    with 5 obtain appended more where
      h: "updatedHistory r = drop 1 ((m @ [assistantMessage result] @ toolResults) @ appended)"
      and l: "fst (snd R) = (c @ [(m, Inr result)]) @ more"
      and e: "\<forall>x \<in> set appended. field ''role'' x = Some (JStr ''tool'') \<or>
           x \<in> set (assistant_messages more)"
      and s: "set (assistant_messages more) \<subseteq> set appended"
      by blast
    let ?appended = "[assistantMessage result] @ toolResults @ appended"
    let ?more = "[(m, Inr result)] @ more"
    have "updatedHistory r = drop 1 (m @ ?appended)"
      using h by simp
    moreover have "fst (snd R) = c @ ?more"
      using l by simp
    moreover have "\<forall>x \<in> set ?appended. field ''role'' x = Some (JStr ''tool'') \<or>
           x \<in> set (assistant_messages ?more)"
      using roles e by (auto simp: assistant_messages_def)
    moreover have "set (assistant_messages ?more) \<subseteq> set ?appended"
      using s by (auto simp: assistant_messages_def)
    ultimately show "\<exists>appended more. updatedHistory r = drop 1 (m @ appended) \<and>
        fst (snd R) = c @ more \<and>
        (\<forall>x \<in> set appended. field ''role'' x = Some (JStr ''tool'') \<or>
           x \<in> set (assistant_messages more)) \<and>
        set (assistant_messages more) \<subseteq> set appended"
      by blast
  qed
qed

lemma createAnthropicProvider_role:
  "complete (createAnthropicProvider JSON_stringify toAnthropicMessages model client)
       ms ts w = (Inr resp, w')
    \<Longrightarrow> field ''role'' (assistantMessage resp) = Some (JStr ''assistant'')"
  by (auto simp: createAnthropicProvider_def field_def Let_def
      split: prod.splits sum.splits if_splits)

lemma createGoogleProvider_role:
  "complete (createGoogleProvider JSON_stringify coerced toGeminiHistory model genAI)
       ms ts w = (Inr resp, w')
    \<Longrightarrow> field ''role'' (assistantMessage resp) = Some (JStr ''assistant'')"
  by (auto simp: createGoogleProvider_def field_def Let_def
      split: prod.splits sum.splits if_splits)

text \<open>
  Claim C10, as amended. Whenever \<^verbatim>\<open>runAgentTurn\<close> returns, with a final reply or with the
  warning, the updated history is the prior history, unchanged, followed by the user
  message with the new text and then by what the loop appended: the assistant messages
  that the provider returned, all of them, and tool-result messages. The injected system
  message is the element in front of the prior history that \<^verbatim>\<open>slice(1)\<close> drops; the loop
  never appends it of its own. It is an element of the updated history exactly when the
  prior history holds an equal message or the provider returned one as its assistant
  message; so it is none when the prior history holds none and the providers answer with
  the role \<^verbatim>\<open>assistant\<close>.
\<close>

theorem updatedHistory_extends_history:
  assumes "runAgentTurn env history userMessage w = (Inr r, w')"
  shows "\<exists>appended.
      updatedHistory r = history @ [user_message userMessage] @ appended \<and>
      (\<forall>x \<in> set appended. field ''role'' x = Some (JStr ''tool'') \<or>
         x \<in> set (assistant_messages (provider_calls env history userMessage w))) \<and>
      set (assistant_messages (provider_calls env history userMessage w)) \<subseteq> set appended \<and>
      (system_message (fst (buildSystemPrompt env userMessage w)) \<in> set (updatedHistory r) \<longleftrightarrow>
         system_message (fst (buildSystemPrompt env userMessage w)) \<in> set history \<or>
         system_message (fst (buildSystemPrompt env userMessage w))
           \<in> set (assistant_messages (provider_calls env history userMessage w))) \<and>
      (answers_as_assistant env \<and>
       system_message (fst (buildSystemPrompt env userMessage w)) \<notin> set history \<longrightarrow>
         system_message (fst (buildSystemPrompt env userMessage w)) \<notin> set (updatedHistory r))"
proof (cases "buildSystemPrompt env userMessage w")
  case (Pair systemPrompt w0)
  let ?m = "system_message systemPrompt # history @ [user_message userMessage]"
  let ?calls = "provider_calls env history userMessage w"
  have calls: "?calls = fst (snd (agent_loop env userMessage 0 ?m [] w0))"
    by (simp add: provider_calls_eq runAgentTurn_traced_eq [OF Pair])
  from assms have "fst (agent_loop env userMessage 0 ?m [] w0) = Inr r"
    by (simp add: runAgentTurn_eq [symmetric] runAgentTurn_traced_eq [OF Pair, symmetric])
  with agent_loop_appends [of env userMessage 0 ?m "[]" w0]
  obtain appended where
    h: "updatedHistory r = drop 1 (?m @ appended)"
    and e: "\<forall>x \<in> set appended. field ''role'' x = Some (JStr ''tool'') \<or>
         x \<in> set (assistant_messages ?calls)"
    and s: "set (assistant_messages ?calls) \<subseteq> set appended"
    unfolding calls by auto
  have h': "updatedHistory r = history @ [user_message userMessage] @ appended"
    using h by simp
  have differ: "system_message systemPrompt \<noteq> user_message userMessage"
    by (simp add: system_message_def user_message_def)
  have no_tool: "field ''role'' (system_message systemPrompt) \<noteq> Some (JStr ''tool'')"
    by (simp add: system_message_def field_def)
  have iff: "system_message systemPrompt \<in> set (updatedHistory r) \<longleftrightarrow>
      system_message systemPrompt \<in> set history \<or>
      system_message systemPrompt \<in> set (assistant_messages ?calls)"
    using h' e s differ no_tool by auto
  have "system_message systemPrompt \<notin> set (assistant_messages ?calls)"
    if a: "answers_as_assistant env"
  proof
    assume "system_message systemPrompt \<in> set (assistant_messages ?calls)"
    then obtain c resp where c: "c \<in> set ?calls" and i: "snd c = Inr resp"
      and eq: "assistantMessage resp = system_message systemPrompt"
      by (auto simp: assistant_messages_def split: sum.splits)
    from c agent_loop_answered [of env userMessage 0 ?m "[]" w0]
    obtain w0' p w1 where "getActiveProvider env w0' = (Inr p, w1)"
      and "snd c = fst (complete p (fst c) (getOpenAITools (registry env)) w1)"
      unfolding calls by auto
    with a i have "field ''role'' (assistantMessage resp) = Some (JStr ''assistant'')"
      unfolding answers_as_assistant_def by (metis prod.collapse)
    then show False
      by (simp add: eq system_message_def field_def)
  qed
  with iff h' e s show ?thesis
    by (auto simp: Pair)
qed

theorem updatedHistory_extends_history_witness:
  "updatedHistory (projr (fst (runAgentTurn (sample_agent says_hello) prior_exchange ''hi'' ())))
     = prior_exchange @ [user_message ''hi'',
         JObj [(''role'', JStr ''assistant''), (''content'', JStr ''hello'')]] \<and>
   system_message (fst (buildSystemPrompt (sample_agent says_hello) ''hi'' ()))
     \<notin> set (updatedHistory (projr (fst (runAgentTurn (sample_agent says_hello)
         prior_exchange ''hi'' ()))))"
proof -
  let ?env = "sample_agent says_hello"
  let ?r = "projr (fst (runAgentTurn ?env prior_exchange ''hi'' ()))"
  have run: "runAgentTurn ?env prior_exchange ''hi'' () = (Inr ?r, ())"
    by (simp add: runAgentTurn_def says_hello_turn)
  have hist: "updatedHistory ?r = prior_exchange @ [user_message ''hi'',
         JObj [(''role'', JStr ''assistant''), (''content'', JStr ''hello'')]]"
    by (simp add: runAgentTurn_def says_hello_turn)
  have "system_message (fst (buildSystemPrompt ?env ''hi'' ())) \<notin> set prior_exchange"
    by (simp add: sample_prompt prior_exchange_def system_message_def user_message_def)
  moreover have "answers_as_assistant ?env"
    unfolding answers_as_assistant_def says_hello_def sample_agent_def
    by (auto dest: createAnthropicProvider_role)
  ultimately have "system_message (fst (buildSystemPrompt ?env ''hi'' ()))
      \<notin> set (updatedHistory ?r)"
    using updatedHistory_extends_history [OF run] by blast
  with hist show ?thesis
    by simp
qed

text \<open>
  The claim as stated fails for a provider that hands the first message of the request,
  which is the system message, back as its assistant message.
\<close>

theorem system_message_handed_back_counterexample:
  "fst (runAgentTurn (sample_agent hands_back) [] ''hi'' ()) =
     Inr \<lparr> reply = ''ok'',
           updatedHistory = [user_message ''hi'', system_message ''You are Space Claw.''] \<rparr> \<and>
   system_message (fst (buildSystemPrompt (sample_agent hands_back) ''hi'' ()))
     \<in> set (updatedHistory (projr (fst (runAgentTurn (sample_agent hands_back) [] ''hi'' ()))))"
proof -
  have env: "AGENT_MAX_ITERATIONS (sample_agent hands_back) = 3"
    "getActiveProvider (sample_agent hands_back) () = (Inr hands_back, ())"
    by (simp_all add: sample_agent_def)
  have c: "complete hands_back (first # ms) ts () =
      (Inr \<lparr> content = Some ''ok'', toolCalls = None, assistantMessage = first \<rparr>, ())"
    for first ms ts
    by (simp add: hands_back_def)
  have run: "fst (runAgentTurn (sample_agent hands_back) [] ''hi'' ()) =
     Inr \<lparr> reply = ''ok'',
           updatedHistory = [user_message ''hi'', system_message ''You are Space Claw.''] \<rparr>"
    by (simp add: runAgentTurn_eq runAgentTurn_traced_def sample_prompt
        agent_loop.simps [of _ _ 0] env c sample_extraction)
  then show ?thesis
    by (simp add: sample_prompt)
qed

subsection \<open>The background job\<close>

lemma settle_same:
  assumes "completes_next env' = completes_next env"
    and "runtime_JSON_parse env' = runtime_JSON_parse env"
    and "registry env' = registry env"
  shows "settle env' pending w = settle env pending w"
  using assms
proof (induction env pending w rule: settle.induct)
  case (1 env pending w)
  show ?case
  proof (cases "pending = []")
    case True
    then show ?thesis
      by (simp add: settle.simps)
  next
    case False
    define i where "i = completes_next env w mod length pending"
    define call where "call = snd (pending ! i)"
    obtain res w1 where d: "dispatchTool (runtime_JSON_parse env) (registry env)
        (call_name call) (call_arguments call) w = (res, w1)"
      by (cases "dispatchTool (runtime_JSON_parse env) (registry env)
        (call_name call) (call_arguments call) w")
    show ?thesis
    proof (cases res)
      case (Inl err)
      with False d show ?thesis
        using "1.prems"
        by (subst settle.simps, subst (2) settle.simps)
          (simp add: Let_def i_def [symmetric] call_def [symmetric])
    next
      case (Inr out)
      have "settle env' (take i pending @ drop (Suc i) pending) w1
          = settle env (take i pending @ drop (Suc i) pending) w1"
        using "1.IH" [OF False i_def call_def d [symmetric] Inr "1.prems"] .
      with False d Inr show ?thesis
        using "1.prems"
        by (subst settle.simps, subst (2) settle.simps)
          (simp add: Let_def i_def [symmetric] call_def [symmetric])
    qed
  qed
qed

lemma Promise_all_toolResults_same:
  assumes "completes_next env' = completes_next env"
    and "runtime_JSON_parse env' = runtime_JSON_parse env"
    and "registry env' = registry env"
  shows "Promise_all_toolResults env' requested w = Promise_all_toolResults env requested w"
  by (simp add: Promise_all_toolResults_def settle_same [OF assms])

lemma extractAndSaveFacts_resolves: "fst (extractAndSaveFacts env u a w) = Inr ()"
  by (simp add: extractAndSaveFacts_def split: prod.splits sum.splits)

lemma agent_loop_ignores_extraction:
  fixes env :: "'w Agent"
  assumes env'_def: "env' = env\<lparr> OPENAI_API_KEY_set := k, create_extraction := e, saveNote := s,
    String_trim := t \<rparr>"
  shows "fst (agent_loop env u i m c w) = fst (agent_loop env' u i m c w) \<and>
    fst (snd (agent_loop env u i m c w)) = fst (snd (agent_loop env' u i m c w))"
proof (rule agent_loop_rule
    [where P = "\<lambda>i m c w R. fst R = fst (agent_loop env' u i m c w) \<and>
      fst (snd R) = fst (snd (agent_loop env' u i m c w))"], goal_cases)
  case (1 i m c w)
  then show ?case
    by (subst agent_loop.simps, subst (2) agent_loop.simps) (simp add: env'_def)
next
  case (2 i m c w err w1)
  then show ?case
    by (subst agent_loop.simps, subst (2) agent_loop.simps) (simp add: env'_def)
next
  case (3 i m c w provider w1 err w2)
  then show ?case
    by (subst agent_loop.simps, subst (2) agent_loop.simps) (simp add: env'_def)
next
  case (4 i m c w provider w1 result w2)
  then have "(case toolCalls result of None \<Rightarrow> True | Some tcs \<Rightarrow> length tcs = 0)"
    by (simp add: requests_tools_def split: option.splits)
  with 4 show ?case
    by (subst agent_loop.simps, subst (2) agent_loop.simps)
      (simp add: env'_def Let_def final_text_def split: prod.splits)
next
  case (5 i m c w provider w1 result w2 requested toolResults w3 R)
  have "Promise_all_toolResults env' requested w2 = Promise_all_toolResults env requested w2"
    by (rule Promise_all_toolResults_same) (simp_all add: env'_def)
  with 5 have "agent_loop env' u i m c w
      = agent_loop env' u (i + 1) (m @ [assistantMessage result] @ toolResults)
          (c @ [(m, Inr result)]) w3"
    by (subst agent_loop.simps) (simp add: env'_def Let_def)
  with 5 show ?case
    by simp
qed

lemma buildSystemPrompt_ignores_extraction:
  "buildSystemPrompt (env\<lparr> OPENAI_API_KEY_set := k, create_extraction := e, saveNote := s,
      String_trim := t \<rparr>) u w = buildSystemPrompt env u w"
  by (simp add: buildSystemPrompt_def Let_def)

lemma runAgentTurn_ignores_extraction:
  "fst (runAgentTurn (env\<lparr> OPENAI_API_KEY_set := k, create_extraction := e, saveNote := s,
      String_trim := t \<rparr>) history u w) = fst (runAgentTurn env history u w)"
proof (cases "buildSystemPrompt env u w")
  case (Pair systemPrompt w0)
  let ?env' = "env\<lparr> OPENAI_API_KEY_set := k, create_extraction := e, saveNote := s,
      String_trim := t \<rparr>"
  have "buildSystemPrompt ?env' u w = (systemPrompt, w0)"
    using Pair by (simp add: buildSystemPrompt_ignores_extraction)
  then show ?thesis
    using Pair agent_loop_ignores_extraction [where env' = ?env' and env = env and k = k
        and e = e and s = s and t = t and u = u and i = 0 and c = "[]" and w = w0
        and m = "system_message systemPrompt # history @ [user_message u]", OF refl]
    by (simp add: runAgentTurn_eq runAgentTurn_traced_eq)
qed

text \<open>
  Claim C8. The outcome of \<^verbatim>\<open>runAgentTurn\<close> (the reply and the updated history, or the
  exception of the provider) does not depend on the background fact extraction: it is
  the same for any two extraction backends, note stores and key settings, whether the
  extraction call succeeds, throws, or returns text that does not parse. The extraction
  itself never rejects.
\<close>

theorem reply_independent_of_fact_extraction:
  "fst (runAgentTurn (env\<lparr> OPENAI_API_KEY_set := k1, create_extraction := e1, saveNote := s1,
      String_trim := t1 \<rparr>) history userMessage w)
   = fst (runAgentTurn (env\<lparr> OPENAI_API_KEY_set := k2, create_extraction := e2, saveNote := s2,
      String_trim := t2 \<rparr>) history userMessage w) \<and>
   fst (extractAndSaveFacts env userMessage assistantReply w) = Inr ()"
  by (simp add: runAgentTurn_ignores_extraction extractAndSaveFacts_resolves)

theorem reply_independent_of_fact_extraction_witness:
  "fst (runAgentTurn ((sample_agent says_hello)
        \<lparr> OPENAI_API_KEY_set := True,
          create_extraction := (\<lambda>prompt w. (Inr (Some ''{bad json''), w)),
          saveNote := (\<lambda>title body w. (Some ''SqliteError'', w)),
          String_trim := (\<lambda>s. s) \<rparr>) [] ''hi'' ())
     = Inr \<lparr> reply = ''hello'',
           updatedHistory = [user_message ''hi'',
             JObj [(''role'', JStr ''assistant''), (''content'', JStr ''hello'')]] \<rparr>"
proof -
  let ?env = "sample_agent says_hello"
  have "?env = ?env \<lparr> OPENAI_API_KEY_set := OPENAI_API_KEY_set ?env,
      create_extraction := create_extraction ?env, saveNote := saveNote ?env,
      String_trim := String_trim ?env \<rparr>"
    by simp
  then have "fst (runAgentTurn ?env [] ''hi'' ())
      = fst (runAgentTurn (?env \<lparr> OPENAI_API_KEY_set := True,
          create_extraction := (\<lambda>prompt w. (Inr (Some ''{bad json''), w)),
          saveNote := (\<lambda>title body w. (Some ''SqliteError'', w)),
          String_trim := (\<lambda>s. s) \<rparr>) [] ''hi'' ())"
    using reply_independent_of_fact_extraction [where env = ?env
        and ?k1.0 = "OPENAI_API_KEY_set ?env" and ?e1.0 = "create_extraction ?env"
        and ?s1.0 = "saveNote ?env" and ?t1.0 = "String_trim ?env"
        and history = "[]" and userMessage = "''hi''" and w = "()"
        and ?k2.0 = True and ?e2.0 = "\<lambda>prompt w. (Inr (Some ''{bad json''), w)"
        and ?s2.0 = "\<lambda>title body w. (Some ''SqliteError'', w)" and ?t2.0 = "\<lambda>s. s"]
    by simp
  then show ?thesis
    by (simp add: runAgentTurn_eq says_hello_turn)
qed

section \<open>Properties of the conversation store\<close>

lemma well_formed_message_role:
  assumes "well_formed_message S P m"
  shows "\<exists>r. field ''role'' m = Some (JStr r)"
proof (cases "field ''role'' m")
  case None
  with assms show ?thesis
    by (simp add: well_formed_message_def)
next
  case (Some v)
  with assms show ?thesis
    by (cases v) (simp_all add: well_formed_message_def)
qed

lemma largest_rowid_append:
  "largest_rowid (xs @ ys) = max (largest_rowid xs) (largest_rowid ys)"
  by (induction xs) (auto simp: largest_rowid_def)

lemma largest_rowid_single: "largest_rowid [r] = row_id r"
  by (simp add: largest_rowid_def)

lemma insert_messages_rows:
  assumes "\<forall>m \<in> set msgs. \<exists>r. field ''role'' m = Some (JStr r)"
  shows "\<exists>db' new.
      insert_messages S T now c msgs db = (Inr (), db') \<and>
      messages_table db' = messages_table db @ new \<and>
      map row_raw_json new = map (\<lambda>m. Some (S m)) msgs \<and>
      (\<forall>r \<in> set new. row_chat_id r = c) \<and>
      sorted (map row_id new) \<and>
      (\<forall>r \<in> set new. max (messages_sequence db) (largest_rowid (messages_table db)) < row_id r)"
  using assms
proof (induction msgs arbitrary: db)
  case Nil
  show ?case
    by simp
next
  case (Cons msg msgs)
  from Cons.prems obtain role_text where role: "field ''role'' msg = Some (JStr role_text)"
    by auto
  define content_text where "content_text =
      (case field ''content'' msg of
         Some (JStr s) \<Rightarrow> s
       | Some JNull \<Rightarrow> S (JStr [])
       | None \<Rightarrow> S (JStr [])
       | Some v \<Rightarrow> S v)"
  define b where "b = max (messages_sequence db) (largest_rowid (messages_table db))"
  define r1 where "r1 = \<lparr> row_id = Suc b, row_chat_id = c, row_role = role_text,
      row_content = content_text, row_ts = now, row_raw_json = Some (S msg) \<rparr>"
  define db1 where "db1 = stmtInsertMsg now c role_text content_text (S msg) db"
  have rows1: "messages_table db1 = messages_table db @ [r1]"
    and seq1: "messages_sequence db1 = Suc b"
    by (simp_all add: db1_def stmtInsertMsg_def Let_def r1_def b_def)
  have b1: "max (messages_sequence db1) (largest_rowid (messages_table db1)) = Suc b"
    by (simp add: rows1 seq1 largest_rowid_append largest_rowid_single r1_def b_def)
  from Cons.prems have "\<forall>m \<in> set msgs. \<exists>r. field ''role'' m = Some (JStr r)"
    by simp
  from Cons.IH [OF this, of db1] obtain db' new where
    ins: "insert_messages S T now c msgs db1 = (Inr (), db')"
    and rows: "messages_table db' = messages_table db1 @ new"
    and raw: "map row_raw_json new = map (\<lambda>m. Some (S m)) msgs"
    and chat: "\<forall>r \<in> set new. row_chat_id r = c"
    and sorted: "sorted (map row_id new)"
    and above: "\<forall>r \<in> set new. Suc b < row_id r"
    unfolding b1 by blast
  have step: "insert_messages S T now c (msg # msgs) db = (Inr (), db')"
    using role ins
    by (simp add: bind_text_def Let_def db1_def content_text_def)
  have "messages_table db' = messages_table db @ (r1 # new)"
    using rows rows1 by simp
  moreover have "map row_raw_json (r1 # new) = map (\<lambda>m. Some (S m)) (msg # msgs)"
    using raw by (simp add: r1_def)
  moreover have "\<forall>r \<in> set (r1 # new). row_chat_id r = c"
    using chat by (simp add: r1_def)
  moreover have "sorted (map row_id (r1 # new))"
    using sorted above by (auto simp: r1_def intro: less_imp_le)
  moreover have "\<forall>r \<in> set (r1 # new). b < row_id r"
    using above by (auto simp: r1_def)
  ultimately show ?case
    using step unfolding b_def by blast
qed

lemma load_rows_well_formed:
  assumes "map row_raw_json rows = map (\<lambda>m. Some (S m)) msgs"
    and "\<forall>m \<in> set msgs. S m \<noteq> [] \<and> P (S m) = Some m"
  shows "load_rows P rows = Inr msgs"
  using assms
proof (induction rows arbitrary: msgs)
  case Nil
  then show ?case by simp
next
  case (Cons r rows)
  then obtain m ms where msgs: "msgs = m # ms"
    by (cases msgs) auto
  with Cons.prems have "row_raw_json r = Some (S m)" and "S m \<noteq> []" and "P (S m) = Some m"
    by auto
  then have "load_row P r = Inr m"
    by (simp add: load_row_def)
  moreover have "load_rows P rows = Inr ms"
    using Cons.prems msgs by (intro Cons.IH) auto
  ultimately show ?case
    by (simp add: msgs)
qed

lemma save_then_load:
  assumes "\<forall>m \<in> set msgs. well_formed_message S P m"
  shows "\<exists>db'. saveHistory S T now c msgs db = (Inr (), db') \<and> loadHistory P c db' = Inr msgs"
proof -
  have roles: "\<forall>m \<in> set msgs. \<exists>r. field ''role'' m = Some (JStr r)"
    using assms well_formed_message_role by blast
  from insert_messages_rows [OF roles, of S T now c "stmtDeleteMsgs c db"]
  obtain db' new where
    ins: "insert_messages S T now c msgs (stmtDeleteMsgs c db) = (Inr (), db')"
    and rows: "messages_table db' = messages_table (stmtDeleteMsgs c db) @ new"
    and raw: "map row_raw_json new = map (\<lambda>m. Some (S m)) msgs"
    and chat: "\<forall>r \<in> set new. row_chat_id r = c"
    and sorted: "sorted (map row_id new)"
    by blast
  have "filter (\<lambda>r. row_chat_id r = c) (messages_table db') = new"
    using chat by (simp add: rows stmtDeleteMsgs_def)
  then have "stmtLoadMsgs c db' = new"
    using sorted by (simp add: stmtLoadMsgs_def sort_key_id_if_sorted)
  moreover have "load_rows P new = Inr msgs"
    using raw assms by (intro load_rows_well_formed [of _ S]) (auto simp: well_formed_message_def)
  ultimately have "loadHistory P c db' = Inr msgs"
    by (simp add: loadHistory_def)
  moreover have "saveHistory S T now c msgs db = (Inr (), db')"
    using ins by (simp add: saveHistory_def persist_def)
  ultimately show ?thesis
    by blast
qed

text \<open>
  Claim C6. For every chat and every list of well-formed canonical messages, saving the
  list succeeds and loading the chat afterwards returns exactly that list: same length,
  same order, every message whole. Saving the same list a second time leaves it so.
\<close>

theorem load_after_save:
  assumes "\<forall>m \<in> set msgs. well_formed_message JSON_stringify JSON_parse m"
  shows "\<exists>db'. saveHistory JSON_stringify number_text now chatId msgs db = (Inr (), db') \<and>
      loadHistory JSON_parse chatId db' = Inr msgs \<and>
      (\<exists>db''. saveHistory JSON_stringify number_text later chatId msgs db' = (Inr (), db'') \<and>
         loadHistory JSON_parse chatId db'' = Inr msgs)"
proof -
  from save_then_load [OF assms] obtain db' where
    "saveHistory JSON_stringify number_text now chatId msgs db = (Inr (), db')"
    and "loadHistory JSON_parse chatId db' = Inr msgs"
    by blast
  moreover from save_then_load [OF assms] obtain db'' where
    "saveHistory JSON_stringify number_text later chatId msgs db' = (Inr (), db'')"
    and "loadHistory JSON_parse chatId db'' = Inr msgs"
    by blast
  ultimately show ?thesis
    by blast
qed

theorem load_after_save_witness:
  "loadHistory sample_parse 7
     (snd (saveHistory sample_stringify (\<lambda>n. ''0'') 1700000003 7 sample_history sample_db))
   = Inr sample_history"
proof -
  have "\<forall>m \<in> set sample_history. well_formed_message sample_stringify sample_parse m"
    by (simp add: sample_history_def well_formed_message_def sample_stringify_def
        sample_parse_def user_message_def asks_echo_message_def tool_message_def
        openai_tool_call_def call_9_def field_def)
  from load_after_save [OF this, of "\<lambda>n. ''0''" 1700000003 7 sample_db 1700000004]
  obtain db' where
    "saveHistory sample_stringify (\<lambda>n. ''0'') 1700000003 7 sample_history sample_db
      = (Inr (), db')"
    and "loadHistory sample_parse 7 db' = Inr sample_history"
    by blast
  then show ?thesis
    by simp
qed

lemma filter_other_chat:
  assumes "other \<noteq> chatId"
  shows "filter (\<lambda>r. row_chat_id r = other) (filter (\<lambda>r. row_chat_id r \<noteq> chatId) rows)
    = filter (\<lambda>r. row_chat_id r = other) rows"
  using assms by (induction rows) auto

text \<open>
  Claim C9. \<^verbatim>\<open>deleteHistory\<close> removes the stored messages of the given chat and nothing else:
  the notes, their full-text index and the core memories are what they were, and so are
  the rows and the loaded history of every other chat.
\<close>

theorem deleteHistory_frame:
  "notes_table (deleteHistory chatId db) = notes_table db \<and>
   notes_fts (deleteHistory chatId db) = notes_fts db \<and>
   notes_sequence (deleteHistory chatId db) = notes_sequence db \<and>
   core_memories_table (deleteHistory chatId db) = core_memories_table db \<and>
   loadHistory JSON_parse chatId (deleteHistory chatId db) = Inr [] \<and>
   (\<forall>other. other \<noteq> chatId \<longrightarrow>
      filter (\<lambda>r. row_chat_id r = other) (messages_table (deleteHistory chatId db))
        = filter (\<lambda>r. row_chat_id r = other) (messages_table db) \<and>
      loadHistory JSON_parse other (deleteHistory chatId db) = loadHistory JSON_parse other db)"
proof -
  have rows: "filter (\<lambda>r. row_chat_id r = other) (messages_table (deleteHistory chatId db))
      = filter (\<lambda>r. row_chat_id r = other) (messages_table db)"
    if "other \<noteq> chatId" for other
    using that by (simp add: deleteHistory_def stmtDeleteMsgs_def filter_other_chat
        del: filter_filter)
  then have "loadHistory JSON_parse other (deleteHistory chatId db)
      = loadHistory JSON_parse other db"
    if "other \<noteq> chatId" for other
    using that by (simp add: loadHistory_def stmtLoadMsgs_def)
  moreover have "loadHistory JSON_parse chatId (deleteHistory chatId db) = Inr []"
    by (simp add: deleteHistory_def stmtDeleteMsgs_def loadHistory_def stmtLoadMsgs_def)
  moreover have "notes_table (deleteHistory chatId db) = notes_table db"
    and "notes_fts (deleteHistory chatId db) = notes_fts db"
    and "notes_sequence (deleteHistory chatId db) = notes_sequence db"
    and "core_memories_table (deleteHistory chatId db) = core_memories_table db"
    by (simp_all add: deleteHistory_def stmtDeleteMsgs_def)
  ultimately show ?thesis
    using rows by simp
qed

theorem deleteHistory_frame_witness:
  "loadHistory sample_parse 7 (deleteHistory 7 sample_db) = Inr [] \<and>
   loadHistory sample_parse 8 (deleteHistory 7 sample_db) = Inr [user_message ''hi''] \<and>
   notes_table (deleteHistory 7 sample_db) = notes_table sample_db \<and>
   notes_fts (deleteHistory 7 sample_db) = [(1, ''favorite color'', ''teal'')]"
proof -
  have "loadHistory sample_parse 8 sample_db = Inr [user_message ''hi'']"
    by (simp add: loadHistory_def stmtLoadMsgs_def sample_db_def load_row_def sample_parse_def)
  moreover have "notes_fts sample_db = [(1, ''favorite color'', ''teal'')]"
    by (simp add: sample_db_def)
  moreover have "(8::int) \<noteq> 7"
    by simp
  ultimately show ?thesis
    using deleteHistory_frame [of 7 sample_db sample_parse] by metis
qed

section \<open>Properties of the schema sanitation\<close>

text \<open>
  Every schema that \<^verbatim>\<open>sanitizeGeminiParams\<close> returns, with the \<^verbatim>\<open>type\<close> put in front of
  it, is free of the unsupported keywords at every depth.
\<close>

lemma set_prototype_stripped:
  "stripped_throughout v \<Longrightarrow> (case set_prototype v ObjectPrototype of
      Inherits q \<Rightarrow> stripped_throughout q | _ \<Rightarrow> True)"
  by (cases v) simp_all

lemma strip_stripped: "stripped_throughout (stripGeminiUnsupported j)"
proof (induction j rule: stripGeminiUnsupported.induct)
  case (1 xs)
  then show ?case by (simp add: list_all_iff)
next
  case (2 kvs)
  define assigned where "assigned = map (\<lambda>(k, v). (k, stripGeminiUnsupported v))
            (filter (\<lambda>(k, v). k \<notin> set GEMINI_UNSUPPORTED_KEYS) kvs)"
  have a: "\<forall>kv \<in> set assigned. fst kv \<notin> set GEMINI_UNSUPPORTED_KEYS \<and> stripped_throughout (snd kv)"
    using 2 by (auto simp: assigned_def)
  have "case map_of assigned ''__proto__'' of
          None \<Rightarrow> True
        | Some v \<Rightarrow> (case set_prototype v ObjectPrototype of
            Inherits q \<Rightarrow> stripped_throughout q | _ \<Rightarrow> True)"
  proof (cases "map_of assigned ''__proto__''")
    case None
    then show ?thesis by simp
  next
    case (Some v)
    then have "(''__proto__'', v) \<in> set assigned"
      by (rule map_of_SomeD)
    with a have "stripped_throughout v"
      by force
    with Some show ?thesis
      by (simp add: set_prototype_stripped)
  qed
  then show ?case
    using a by (simp add: assigned_def [symmetric] Let_def list_all_iff split: option.splits)
qed simp_all

lemma stripped_no_mention: "stripped_throughout v \<Longrightarrow> \<not> mentions_unsupported v"
  by (induction v rule: mentions_unsupported.induct) (auto simp: list_all_iff list_ex_iff)

lemma get_property_stripped:
  "stripped_throughout v \<Longrightarrow> get_property k v = Some x \<Longrightarrow> stripped_throughout x"
proof (induction k v rule: get_property.induct)
  case (1 k p kvs)
  show ?case
  proof (cases "map_of kvs k")
    case None
    with 1 show ?thesis
      by (cases p) auto
  next
    case (Some v)
    then have "(k, v) \<in> set kvs"
      by (rule map_of_SomeD)
    with 1 Some show ?thesis
      by (auto simp: list_all_iff)
  qed
qed simp_all

lemma filter_in_subset:
  "filter_in coerced rs p = Inr kept \<Longrightarrow> set kept \<subseteq> set rs"
  by (induction rs arbitrary: kept) (auto split: sum.splits if_splits)

lemma set_assign_key: "set (assign_key k v kvs) \<subseteq> insert (k, v) (set kvs)"
  by (auto simp: assign_key_def split: if_splits)

lemma set_delete_key: "set (delete_key k kvs) \<subseteq> set kvs"
  by (auto simp: delete_key_def)

lemma clean_object:
  "\<not> mentions_unsupported (VObj p kvs) \<longleftrightarrow>
     (\<forall>kv \<in> set kvs. fst kv \<notin> set GEMINI_UNSUPPORTED_KEYS \<and> \<not> mentions_unsupported (snd kv))"
  by (auto simp: list_ex_iff)

lemma sanitizeGeminiParams_clean:
  assumes "sanitizeGeminiParams coerced raw = Inr clean"
  shows "\<not> mentions_unsupported
    (VObj ObjectPrototype ((''type'', VStr ''OBJECT'') # own_properties clean))"
proof -
  define cleaned where "cleaned = stripGeminiUnsupported (JObj raw)"
  define proto where "proto = prototype_of cleaned"
  define stripped where "stripped = delete_key ''type'' (own_properties cleaned)"
  define required where "required = get_property ''required'' (VObj proto stripped)"
  define props where "props = get_property ''properties'' (VObj proto stripped)"
  define ok :: "(string \<times> jsvalue) list \<Rightarrow> bool" where
    "ok kvs \<longleftrightarrow> (\<forall>kv \<in> set kvs.
       fst kv \<notin> set GEMINI_UNSUPPORTED_KEYS \<and> \<not> mentions_unsupported (snd kv))" for kvs
  have eq: "sanitizeGeminiParams coerced raw =
     (case (required, props) of
        (Some (VArr rs), Some p) \<Rightarrow>
          (if is_truthy props then
             (case filter_in coerced rs p of
                Inl err \<Rightarrow> Inl err
              | Inr kept \<Rightarrow>
                  (if length kept = 0 then Inr (VObj proto (delete_key ''required'' stripped))
                   else Inr (VObj proto (assign_key ''required'' (VArr kept) stripped))))
           else Inr (VObj proto (delete_key ''required'' stripped)))
      | _ \<Rightarrow>
          (if is_truthy required then Inr (VObj proto (delete_key ''required'' stripped))
           else Inr (VObj proto stripped)))"
    unfolding sanitizeGeminiParams_def Let_def cleaned_def proto_def stripped_def required_def
      props_def
    by (rule refl)
  have c: "stripped_throughout cleaned"
    unfolding cleaned_def by (rule strip_stripped)
  obtain q kvs where cl: "cleaned = VObj q kvs"
    by (simp add: cleaned_def Let_def)
  have st: "stripped_throughout (VObj proto stripped)"
    using c set_delete_key [of "''type''" kvs]
    by (auto simp: cl proto_def stripped_def prototype_of_def own_properties_def list_all_iff)
  then have s: "ok stripped"
    by (auto simp: ok_def list_all_iff dest: stripped_no_mention)
  have d: "ok (delete_key ''required'' stripped)"
    using s set_delete_key [of "''required''" stripped] unfolding ok_def by blast
  have k: "ok (assign_key ''required'' (VArr kept) stripped)"
    if "required = Some (VArr rs)" and "filter_in coerced rs p = Inr kept" for rs kept p
  proof -
    from st that(1) have "stripped_throughout (VArr rs)"
      unfolding required_def by (rule get_property_stripped)
    moreover from that(2) have "set kept \<subseteq> set rs"
      by (rule filter_in_subset)
    ultimately have "stripped_throughout (VArr kept)"
      by (auto simp: list_all_iff)
    then have "\<not> mentions_unsupported (VArr kept)"
      by (rule stripped_no_mention)
    moreover have "''required'' \<notin> set GEMINI_UNSUPPORTED_KEYS"
      by (simp add: GEMINI_UNSUPPORTED_KEYS_def)
    ultimately have "\<forall>kv \<in> insert (''required'', VArr kept) (set stripped).
        fst kv \<notin> set GEMINI_UNSUPPORTED_KEYS \<and> \<not> mentions_unsupported (snd kv)"
      using s unfolding ok_def by simp
    with set_assign_key [of "''required''" "VArr kept" stripped] show ?thesis
      unfolding ok_def by blast
  qed
  have "ok (own_properties clean)"
    using assms s d k unfolding eq
    by (auto simp: own_properties_def split: option.splits jsvalue.splits sum.splits if_splits)
  moreover have "''type'' \<notin> set GEMINI_UNSUPPORTED_KEYS"
    by (simp add: GEMINI_UNSUPPORTED_KEYS_def)
  ultimately show ?thesis
    unfolding clean_object ok_def by simp
qed

lemma geminiToolDecls_clean:
  assumes "geminiToolDecls coerced ts = Inr decls"
  shows "\<forall>d \<in> set decls. \<not> mentions_unsupported (VObj ObjectPrototype (decl_parameters d))"
  using assms
proof (induction ts arbitrary: decls)
  case Nil
  then show ?case by simp
next
  case (Cons t ts)
  from Cons.prems obtain clean rest where
    c: "sanitizeGeminiParams coerced
          (case function_parameters t of Some raw \<Rightarrow> raw | None \<Rightarrow> []) = Inr clean"
    and r: "geminiToolDecls coerced ts = Inr rest"
    and d: "decls = \<lparr> decl_name = function_name t,
              decl_description = (case function_description t of Some d \<Rightarrow> d | None \<Rightarrow> []),
              decl_parameters = (''type'', VStr ''OBJECT'') # own_properties clean \<rparr> # rest"
    by (auto split: sum.splits)
  from c have "\<not> mentions_unsupported
      (VObj ObjectPrototype ((''type'', VStr ''OBJECT'') # own_properties clean))"
    by (rule sanitizeGeminiParams_clean)
  with Cons.IH [OF r] show ?case
    unfolding d by simp
qed

text \<open>
  The filter of the top-level \<^verbatim>\<open>required\<close> list drops an entry with no property, but keeps
  a name that the \<^verbatim>\<open>properties\<close> object only inherits from \<^verbatim>\<open>Object.prototype\<close>.
\<close>

lemma inherited_name_passes_filter:
  "sanitizeGeminiParams coerced
     [(''type'', JStr ''object''),
      (''properties'', JObj [(''text'', JObj [(''type'', JStr ''string'')])]),
      (''required'', JArr [JStr ''text'', JStr ''toString'', JStr ''missing''])]
   = Inr (VObj ObjectPrototype
       [(''properties'', VObj ObjectPrototype
           [(''text'', VObj ObjectPrototype [(''type'', VStr ''string'')])]),
        (''required'', VArr [VStr ''text'', VStr ''toString''])])"
  by (simp add: sanitizeGeminiParams_def GEMINI_UNSUPPORTED_KEYS_def delete_key_def
      assign_key_def js_in_def Object_prototype_names_def Let_def prototype_of_def
      own_properties_def)

text \<open>
  A property held under the key \<^verbatim>\<open>__proto__\<close> becomes the prototype of the cleaned
  \<^verbatim>\<open>properties\<close> object: the filter finds the name there and keeps it, though the object
  that is sent declares no property.
\<close>

lemma prototype_passes_filter:
  "sanitizeGeminiParams coerced
     [(''type'', JStr ''object''),
      (''properties'', JObj [(''__proto__'', JObj [(''text'', JObj [(''type'', JStr ''string'')])])]),
      (''required'', JArr [JStr ''text''])]
   = Inr (VObj ObjectPrototype
       [(''properties'', VObj (Inherits (VObj ObjectPrototype
           [(''text'', VObj ObjectPrototype [(''type'', VStr ''string'')])])) []),
        (''required'', VArr [VStr ''text''])])"
  by (simp add: sanitizeGeminiParams_def GEMINI_UNSUPPORTED_KEYS_def delete_key_def
      assign_key_def js_in_def Object_prototype_names_def Let_def prototype_of_def
      own_properties_def)

text \<open>
  Claim C7, at a failing input. For a tool whose parameters hold a nested object schema
  with a required property named \<^verbatim>\<open>title\<close>, the declaration sent to Gemini is free of
  unsupported keywords, but the stripping has removed the nested property \<^verbatim>\<open>title\<close> (its
  name is one of the stripped keys) while the nested \<^verbatim>\<open>required\<close> list still names it: only
  the top-level \<^verbatim>\<open>required\<close> list is filtered against its \<^verbatim>\<open>properties\<close>.
\<close>

theorem nested_required_survives:
  "geminiToolDecls coerced
     [\<lparr> function_name = ''create_issue'', function_description = None,
        function_parameters = Some issue_schema \<rparr>]
     = Inr [\<lparr> decl_name = ''create_issue'', decl_description = [],
              decl_parameters = issue_schema_sent \<rparr>] \<and>
   \<not> required_declared (VObj ObjectPrototype issue_schema_sent) \<and>
   \<not> mentions_unsupported (VObj ObjectPrototype issue_schema_sent)"
  by (simp add: sanitizeGeminiParams_def issue_schema_def issue_schema_sent_def
      GEMINI_UNSUPPORTED_KEYS_def delete_key_def assign_key_def js_in_def Let_def
      prototype_of_def own_properties_def Object_prototype_names_def)

section \<open>Properties of the provider adapters\<close>

lemma enumerate_Nil_iff: "enumerate n xs = [] \<longleftrightarrow> xs = []"
  by (cases xs) simp_all

lemma makeOpenAICompatible_one_non_null:
  "fst (complete (makeOpenAICompatible ident name model client) messages tools w) = Inr r
    \<Longrightarrow> exactly_one_non_null r"
  by (auto simp: makeOpenAICompatible_def exactly_one_non_null_def
      split: prod.splits sum.splits list.splits option.splits if_splits)

lemma createAnthropicProvider_one_non_null:
  "fst (complete (createAnthropicProvider JSON_stringify toAnthropicMessages model client)
         messages tools w) = Inr r
    \<Longrightarrow> exactly_one_non_null r"
  by (auto simp: createAnthropicProvider_def exactly_one_non_null_def Let_def
      split: prod.splits sum.splits list.splits option.splits if_splits)

lemma createGoogleProvider_one_non_null:
  "fst (complete (createGoogleProvider JSON_stringify coerced toGeminiHistory model genAI)
         messages tools w) = Inr r
    \<Longrightarrow> exactly_one_non_null r"
  by (auto simp: createGoogleProvider_def exactly_one_non_null_def Let_def enumerate_Nil_iff
      split: prod.splits sum.splits list.splits option.splits if_splits)

text \<open>
  Claim C5. For each of the three adapters, every backend answer and every request:
  whenever \<^verbatim>\<open>complete\<close> resolves, exactly one of \<^verbatim>\<open>content\<close> and \<^verbatim>\<open>toolCalls\<close> of the
  response is non-null; content is null exactly when the tool calls are a non-empty list
  and the tool calls are null exactly when content is a string.
\<close>

theorem complete_exactly_one_non_null:
  "(\<forall>r. fst (complete (makeOpenAICompatible ident name model client) messages tools w) = Inr r
        \<longrightarrow> exactly_one_non_null r) \<and>
   (\<forall>r. fst (complete (createAnthropicProvider JSON_stringify toAnthropicMessages model' client')
               messages tools w) = Inr r
        \<longrightarrow> exactly_one_non_null r) \<and>
   (\<forall>r. fst (complete (createGoogleProvider JSON_stringify coerced toGeminiHistory model'' genAI)
               messages tools w) = Inr r
        \<longrightarrow> exactly_one_non_null r)"
  by (intro conjI allI impI)
    (erule makeOpenAICompatible_one_non_null, erule createAnthropicProvider_one_non_null,
     erule createGoogleProvider_one_non_null)

theorem complete_exactly_one_non_null_witness:
  "content (projr (fst (complete (makeOpenAICompatible ''openai'' ''OpenAI'' ''gpt-4o''
        openai_asks_echo) [] [] ()))) = None \<and>
   exactly_one_non_null (projr (fst (complete (makeOpenAICompatible ''openai'' ''OpenAI'' ''gpt-4o''
        openai_asks_echo) [] [] ()))) \<and>
   content (projr (fst (complete (createAnthropicProvider sample_stringify (\<lambda>ms. Inr ())
        ''claude'' anthropic_says_hello) [] [] ()))) = Some ''hello'' \<and>
   exactly_one_non_null (projr (fst (complete (createAnthropicProvider sample_stringify
        (\<lambda>ms. Inr ()) ''claude'' anthropic_says_hello) [] [] ()))) \<and>
   toolCalls (projr (fst (complete (createGoogleProvider sample_stringify (\<lambda>k p. Inr False)
        (\<lambda>ms. Inr ()) ''gemini'' gemini_asks_echo) [] [] ()))) =
     Some [\<lparr> call_id = ''gemini-0'', call_name = ''echo'',
             call_arguments = ''{\"text\":\"hi\"}'' \<rparr>] \<and>
   exactly_one_non_null (projr (fst (complete (createGoogleProvider sample_stringify
        (\<lambda>k p. Inr False) (\<lambda>ms. Inr ()) ''gemini'' gemini_asks_echo) [] [] ())))"
proof -
  let ?o = "fst (complete (makeOpenAICompatible ''openai'' ''OpenAI'' ''gpt-4o''
        openai_asks_echo) [] [] ())"
  let ?a = "fst (complete (createAnthropicProvider sample_stringify (\<lambda>ms. Inr ())
        ''claude'' anthropic_says_hello) [] [] ())"
  let ?g = "fst (complete (createGoogleProvider sample_stringify (\<lambda>k p. Inr False)
        (\<lambda>ms. Inr ()) ''gemini'' gemini_asks_echo) [] [] ())"
  have o: "?o = Inr (projr ?o)" and oc: "content (projr ?o) = None"
    by (simp_all add: makeOpenAICompatible_def openai_asks_echo_def)
  have a: "?a = Inr (projr ?a)" and ac: "content (projr ?a) = Some ''hello''"
    by (simp_all add: createAnthropicProvider_def anthropic_says_hello_def joined_text_def
        List.map_filter_simps Let_def)
  have g: "?g = Inr (projr ?g)"
    and gc: "toolCalls (projr ?g) = Some [\<lparr> call_id = ''gemini-0'', call_name = ''echo'',
             call_arguments = ''{\"text\":\"hi\"}'' \<rparr>]"
    by (simp_all add: createGoogleProvider_def gemini_asks_echo_def sample_stringify_def
        Let_def digit_def)
  from complete_exactly_one_non_null
    [of "''openai''" "''OpenAI''" "''gpt-4o''" openai_asks_echo "[]" "[]" "()"
        sample_stringify "\<lambda>ms. Inr ()" "''claude''" anthropic_says_hello
        "\<lambda>k p. Inr False" "\<lambda>ms. Inr ()" "''gemini''" gemini_asks_echo]
  have "exactly_one_non_null (projr ?o)" and "exactly_one_non_null (projr ?a)"
    and "exactly_one_non_null (projr ?g)"
    using o a g by blast+
  then show ?thesis
    using oc ac gc by simp
qed

end
